theory Spec2Isabelle
  imports Complex_Main "HOL-Library.Sublist"
begin

section \<open>Strings and arrays of the host language\<close>

text \<open>
  A JavaScript string is modelled as a \<^typ>\<open>string\<close>, one \<^typ>\<open>char\<close> per code unit
  (code units below 256). The separator of item codes is the hyphen.
\<close>

definition hyphen :: char where
  "hyphen = CHR ''-''"

text \<open>\<^verbatim>\<open>s.startsWith(p)\<close>.\<close>

definition startsWith :: "string \<Rightarrow> string \<Rightarrow> bool" where
  "startsWith s p = prefix p s"

text \<open>\<^verbatim>\<open>s.split("-")\<close>: the empty string splits into one empty segment.\<close>

fun split_hyphen :: "string \<Rightarrow> string list" where
  "split_hyphen [] = [[]]"
| "split_hyphen (c # cs) =
     (if c = hyphen then [] # split_hyphen cs
      else (c # hd (split_hyphen cs)) # tl (split_hyphen cs))"

text \<open>\<^verbatim>\<open>(s.match(/-/g) || []).length\<close>: the number of hyphens of the code.\<close>

definition hierarchyLevelOf :: "string \<Rightarrow> nat" where
  "hierarchyLevelOf s = length (filter (\<lambda>c. c = hyphen) s)"

text \<open>
  The decimal rendering of a non-negative integer, which is what \<^verbatim>\<open>toString()\<close>,
  \<^verbatim>\<open>String(n)\<close> and a template literal give for an integer below \<open>2^53\<close>.
\<close>

definition digit_char :: "nat \<Rightarrow> char" where
  "digit_char d =
     (if d = 0 then CHR ''0'' else if d = 1 then CHR ''1'' else if d = 2 then CHR ''2''
      else if d = 3 then CHR ''3'' else if d = 4 then CHR ''4'' else if d = 5 then CHR ''5''
      else if d = 6 then CHR ''6'' else if d = 7 then CHR ''7'' else if d = 8 then CHR ''8''
      else CHR ''9'')"

fun string_of_nat :: "nat \<Rightarrow> string" where
  "string_of_nat n =
     (if n < 10 then [digit_char n] else string_of_nat (n div 10) @ [digit_char (n mod 10)])"

declare string_of_nat.simps [simp del]

text \<open>
  A JavaScript array that may have holes is a list of options: \<open>None\<close> is a hole (it
  reads as \<^verbatim>\<open>undefined\<close>). Writing \<^verbatim>\<open>a.length = n\<close> truncates the array or
  pads it with holes; writing \<^verbatim>\<open>a[i] = v\<close> past the end extends it with holes.
\<close>

definition set_length :: "nat \<Rightarrow> 'a option list \<Rightarrow> 'a option list" where
  "set_length n xs = take n xs @ replicate (n - length xs) None"

definition assign_index :: "nat \<Rightarrow> 'a \<Rightarrow> 'a option list \<Rightarrow> 'a option list" where
  "assign_index i v xs =
     (if i < length xs then xs[i := Some v]
      else xs @ replicate (i - length xs) None @ [Some v])"

definition read_index :: "nat \<Rightarrow> 'a option list \<Rightarrow> 'a option" where
  "read_index i xs = (if i < length xs then xs ! i else None)"

text \<open>\<^verbatim>\<open>a.slice(from, to)\<close> for \<open>from \<le> to\<close>.\<close>

definition slice :: "nat \<Rightarrow> nat \<Rightarrow> 'a list \<Rightarrow> 'a list" where
  "slice from to xs = take (to - from) (drop from xs)"

text \<open>\<^verbatim>\<open>a.join("-")\<close>: a hole or \<^verbatim>\<open>undefined\<close> joins as the empty string.\<close>

fun join_hyphen :: "string option list \<Rightarrow> string" where
  "join_hyphen [] = []"
| "join_hyphen [x] = (case x of None \<Rightarrow> [] | Some s \<Rightarrow> s)"
| "join_hyphen (x # y # ys) =
     (case x of None \<Rightarrow> [] | Some s \<Rightarrow> s) @ [hyphen] @ join_hyphen (y # ys)"

text \<open>A value inside a template literal: \<^verbatim>\<open>undefined\<close> prints as its name.\<close>

definition template :: "string option \<Rightarrow> string" where
  "template x = (case x of None \<Rightarrow> ''undefined'' | Some s \<Rightarrow> s)"

section \<open>The reindexer\<close>

text \<open>
  \<^verbatim>\<open>reindexItemCodes\<close> keeps two arrays across the loop: the path stack and the
  sibling counter of each level. One iteration of the loop body maps them and the
  current code to the new arrays and the new code.
\<close>

type_synonym reindex_state = "string option list \<times> nat option list"

definition reindex_step :: "reindex_state \<Rightarrow> string \<Rightarrow> reindex_state \<times> string" where
  "reindex_step st code =
     (let parts = split_hyphen code;
          level = length parts - 1;
          pathStack = set_length level (fst st);
          levelCounters = set_length (level + 1) (snd st)
      in if level = 0 then
           let pathStack' = assign_index 0 (hd parts) pathStack;
               levelCounters' = assign_index 0 0 levelCounters
           in ((pathStack', levelCounters'), template (read_index 0 pathStack'))
         else
           let n = (case read_index level levelCounters of None \<Rightarrow> 0 | Some k \<Rightarrow> k) + 1;
               levelCounters' = assign_index level n levelCounters;
               pathStack' = assign_index level (string_of_nat n) pathStack
           in ((pathStack', levelCounters'),
               template (read_index 0 pathStack') @ [hyphen] @
                 join_hyphen (slice 1 (level + 1) pathStack')))"

fun reindex_loop :: "reindex_state \<Rightarrow> string list \<Rightarrow> string list" where
  "reindex_loop st [] = []"
| "reindex_loop st (code # codes) =
     snd (reindex_step st code) # reindex_loop (fst (reindex_step st code)) codes"

definition reindexItemCodes :: "string list \<Rightarrow> string list" where
  "reindexItemCodes itemCodes = reindex_loop ([], []) itemCodes"

text \<open>
  The path stack is well formed when none of its entries contains a hyphen: the entries
  are root labels of depth-0 codes and decimal counters.
\<close>

definition path_ok :: "string option list \<Rightarrow> bool" where
  "path_ok ps = (\<forall>s. Some s \<in> set ps \<longrightarrow> hyphen \<notin> set s)"

text \<open>The label of the nearest depth-0 code of a list, if there is one.\<close>

definition nearestRoot :: "string list \<Rightarrow> string option" where
  "nearestRoot codes =
     (let roots = filter (\<lambda>c. hierarchyLevelOf c = 0) codes
      in if roots = [] then None else Some (last roots))"

text \<open>The arrays of the loop after it has processed a list of codes.\<close>

definition state_after :: "reindex_state \<Rightarrow> string list \<Rightarrow> reindex_state" where
  "state_after st codes = foldl (\<lambda>s c. fst (reindex_step s c)) st codes"

section \<open>Numbers of the host language\<close>

text \<open>The decimal digits of a non-negative integer.\<close>

function decimal_digits :: "int \<Rightarrow> string" where
  "decimal_digits n =
     (if n < 10 then [digit_char (nat n)]
      else decimal_digits (n div 10) @ [digit_char (nat (n mod 10))])"
  by pat_completeness auto
termination
  by (relation "measure nat") auto

declare decimal_digits.simps [simp del]

text \<open>
  A Number of the host language: not-a-number, the two infinities, or a finite double,
  held as the rational it denotes (negative zero is not told apart from zero: adding 1 and
  printing do not tell them apart either).
\<close>

datatype jsnumber = NaN | PosInfinity | NegInfinity | Finite rat

text \<open>The power \<open>b^k\<close> for an integer exponent of either sign.\<close>

definition pow_int :: "int \<Rightarrow> int \<Rightarrow> rat" where
  "pow_int b k = (if 0 \<le> k then of_int (b ^ nat k) else 1 / of_int (b ^ nat (- k)))"

text \<open>The number of digits of a positive integer in base \<open>b\<close>.\<close>

function digit_count :: "int \<Rightarrow> int \<Rightarrow> int" where
  "digit_count b n = (if n \<le> 0 \<or> b \<le> 1 then 0 else digit_count b (n div b) + 1)"
  by pat_completeness auto
termination
  by (relation "measure (\<lambda>(b, n). nat n)") (auto simp: int_div_less_self)

declare digit_count.simps [simp del]

text \<open>
  The exponent \<open>k\<close> with \<open>b^k \<le> q < b^(k+1)\<close> of a positive rational: the
  difference of the digit counts of numerator and denominator, or one less.
\<close>

definition floor_log :: "int \<Rightarrow> rat \<Rightarrow> int" where
  "floor_log b q =
     (let (n, d) = quotient_of q;
          k = digit_count b n - digit_count b d
      in if pow_int b k \<le> q then k else k - 1)"

definition round_half_even :: "rat \<Rightarrow> int" where
  "round_half_even q =
     (let f = \<lfloor>q\<rfloor>; r = q - of_int f
      in if r < 1 / 2 then f else if 1 / 2 < r then f + 1 else if even f then f else f + 1)"

text \<open>
  The double nearest to a rational, ties to the even significand: 53 bits of
  significand, exponents down to the subnormal range, and infinity from \<open>2^1024\<close> on.
\<close>

definition round_double :: "rat \<Rightarrow> jsnumber" where
  "round_double q =
     (if q = 0 then Finite 0
      else let a = \<bar>q\<bar>;
               p = max (floor_log 2 a - 52) (- 1074);
               v = of_int (round_half_even (a / pow_int 2 p)) * pow_int 2 p
           in if 1024 \<le> floor_log 2 v then (if q < 0 then NegInfinity else PosInfinity)
              else Finite (if q < 0 then - v else v))"

text \<open>
  \<^verbatim>\<open>Number.prototype.toString\<close>: the shortest decimal digit string \<open>s\<close> and exponent
  \<open>t\<close> such that \<open>s * 10^t\<close> reads back as the same double, the closest one when two of
  the same length do. \<open>candidate x n k\<close> is the choice with \<open>k\<close> digits, if one reads
  back, for \<open>10^(n-1) \<le> x < 10^n\<close>; seventeen digits always read back.
\<close>

definition candidate :: "rat \<Rightarrow> int \<Rightarrow> nat \<Rightarrow> (int \<times> int) option" where
  "candidate x n k =
     (let t = n - int k;
          y = x / pow_int 10 t;
          lo = \<lfloor>y\<rfloor>;
          fits = (\<lambda>s. round_double (of_int s * pow_int 10 t) = Finite x);
          s = (if fits lo \<and> fits (lo + 1) then round_half_even y
               else if fits lo then lo else lo + 1)
      in if fits lo \<or> fits (lo + 1)
         then Some (if s = 10 ^ k then (1, t + int k) else (s, t))
         else None)"

function shortest_digits :: "rat \<Rightarrow> int \<Rightarrow> nat \<Rightarrow> int \<times> int" where
  "shortest_digits x n k =
     (if 17 \<le> k then (round_half_even (x / pow_int 10 (n - 17)), n - 17)
      else case candidate x n k of Some st \<Rightarrow> st | None \<Rightarrow> shortest_digits x n (k + 1))"
  by pat_completeness auto
termination
  by (relation "measure (\<lambda>(x, n, k). 17 - k)") auto

declare shortest_digits.simps [simp del]

text \<open>
  The layout of the digits: plain notation for exponents from \<open>10^-7\<close> up to
  \<open>10^21\<close>, exponent notation outside.
\<close>

definition positive_to_string :: "rat \<Rightarrow> string" where
  "positive_to_string x =
     (let (s, t) = shortest_digits x (floor_log 10 x + 1) 1;
          ds = decimal_digits s;
          k = int (length ds);
          n = t + k
      in if k \<le> n \<and> n \<le> 21 then ds @ replicate (nat (n - k)) CHR ''0''
         else if 0 < n \<and> n \<le> 21 then take (nat n) ds @ ''.'' @ drop (nat n) ds
         else if - 6 < n \<and> n \<le> 0 then ''0.'' @ replicate (nat (- n)) CHR ''0'' @ ds
         else let e = n - 1;
                  ex = (if e < 0 then ''-'' else ''+'') @ decimal_digits \<bar>e\<bar>
              in if k = 1 then ds @ ''e'' @ ex
                 else take 1 ds @ ''.'' @ drop 1 ds @ ''e'' @ ex)"

definition numberToString :: "jsnumber \<Rightarrow> string" where
  "numberToString x =
     (case x of NaN \<Rightarrow> ''NaN'' | PosInfinity \<Rightarrow> ''Infinity'' | NegInfinity \<Rightarrow> ''-Infinity''
      | Finite q \<Rightarrow> if q = 0 then ''0'' else if q < 0 then ''-'' @ positive_to_string (- q)
                    else positive_to_string q)"

text \<open>The sum of two Numbers, rounded to a double.\<close>

definition numberAdd :: "jsnumber \<Rightarrow> jsnumber \<Rightarrow> jsnumber" where
  "numberAdd x y =
     (case (x, y) of
        (NaN, _) \<Rightarrow> NaN | (_, NaN) \<Rightarrow> NaN
      | (PosInfinity, NegInfinity) \<Rightarrow> NaN | (NegInfinity, PosInfinity) \<Rightarrow> NaN
      | (PosInfinity, _) \<Rightarrow> PosInfinity | (_, PosInfinity) \<Rightarrow> PosInfinity
      | (NegInfinity, _) \<Rightarrow> NegInfinity | (_, NegInfinity) \<Rightarrow> NegInfinity
      | (Finite a, Finite b) \<Rightarrow> round_double (a + b))"

text \<open>
  \<^verbatim>\<open>Number(s)\<close> on a string: white space is trimmed, the empty string is 0, and the
  rest must be a numeric literal to the last character (a signed decimal literal with an
  optional fraction and exponent, a signed \<^verbatim>\<open>Infinity\<close>, or an unsigned binary, octal
  or hexadecimal integer); everything else is not-a-number.
\<close>

definition isStrWhiteSpaceChar :: "char \<Rightarrow> bool" where
  "isStrWhiteSpaceChar c = (of_char c \<in> {9, 10, 11, 12, 13, 32, 160 :: int})"

definition trim :: "string \<Rightarrow> string" where
  "trim s = rev (dropWhile isStrWhiteSpaceChar (rev (dropWhile isStrWhiteSpaceChar s)))"

definition digit_value :: "char \<Rightarrow> int option" where
  "digit_value c =
     (let u = (of_char c :: int)
      in if 48 \<le> u \<and> u \<le> 57 then Some (u - 48)
         else if 97 \<le> u \<and> u \<le> 102 then Some (u - 87)
         else if 65 \<le> u \<and> u \<le> 70 then Some (u - 55)
         else None)"

definition is_digit :: "int \<Rightarrow> char \<Rightarrow> bool" where
  "is_digit radix c = (case digit_value c of None \<Rightarrow> False | Some d \<Rightarrow> d < radix)"

definition digits_value :: "int \<Rightarrow> string \<Rightarrow> int" where
  "digits_value radix ds =
     foldl (\<lambda>acc c. acc * radix + (case digit_value c of None \<Rightarrow> 0 | Some d \<Rightarrow> d)) 0 ds"

definition parse_digits :: "int \<Rightarrow> string \<Rightarrow> int option" where
  "parse_digits radix ds =
     (if ds \<noteq> [] \<and> list_all (is_digit radix) ds then Some (digits_value radix ds) else None)"

definition parse_exponent :: "string \<Rightarrow> int option" where
  "parse_exponent s =
     (case s of [] \<Rightarrow> None
      | c # ds \<Rightarrow>
          if c = CHR ''+'' then parse_digits 10 ds
          else if c = CHR ''-'' then map_option uminus (parse_digits 10 ds)
          else parse_digits 10 s)"

definition parse_unsigned_decimal :: "string \<Rightarrow> rat option" where
  "parse_unsigned_decimal s =
     (let ip = takeWhile (is_digit 10) s;
          r1 = dropWhile (is_digit 10) s;
          dot = (r1 \<noteq> [] \<and> hd r1 = CHR ''.'');
          fp = (if dot then takeWhile (is_digit 10) (tl r1) else []);
          r2 = (if dot then dropWhile (is_digit 10) (tl r1) else r1);
          mv = of_int (digits_value 10 (ip @ fp)) / of_int (10 ^ length fp)
      in if ip = [] \<and> fp = [] then None
         else if r2 = [] then Some mv
         else if hd r2 = CHR ''e'' \<or> hd r2 = CHR ''E''
           then map_option (\<lambda>e. mv * pow_int 10 e) (parse_exponent (tl r2))
         else None)"

definition parse_radix_literal :: "string \<Rightarrow> rat option" where
  "parse_radix_literal s =
     (case s of
        z # r # ds \<Rightarrow>
          if z \<noteq> CHR ''0'' then None
          else if r = CHR ''x'' \<or> r = CHR ''X'' then map_option of_int (parse_digits 16 ds)
          else if r = CHR ''o'' \<or> r = CHR ''O'' then map_option of_int (parse_digits 8 ds)
          else if r = CHR ''b'' \<or> r = CHR ''B'' then map_option of_int (parse_digits 2 ds)
          else None
      | _ \<Rightarrow> None)"

definition parse_signed_decimal :: "string \<Rightarrow> jsnumber" where
  "parse_signed_decimal s =
     (let neg = (s \<noteq> [] \<and> hd s = CHR ''-'');
          body = (if s \<noteq> [] \<and> (hd s = CHR ''-'' \<or> hd s = CHR ''+'') then tl s else s)
      in if body = ''Infinity'' then (if neg then NegInfinity else PosInfinity)
         else case parse_unsigned_decimal body of
                None \<Rightarrow> NaN
              | Some q \<Rightarrow> round_double (if neg then - q else q))"

definition stringToNumber :: "string \<Rightarrow> jsnumber" where
  "stringToNumber str =
     (let s = trim str
      in if s = [] then Finite 0
         else case parse_radix_literal s of
                Some q \<Rightarrow> round_double q
              | None \<Rightarrow> parse_signed_decimal s)"

definition isNaN :: "jsnumber \<Rightarrow> bool" where
  "isNaN x = (x = NaN)"


section \<open>Item codes\<close>

text \<open>
  The errors of the scripts. The source throws a plain \<^verbatim>\<open>Error\<close> with a message:
  \<open>InvalidCodeError c\<close> is "Invalid numeric segment in code: c", \<open>RangeError\<close> is
  "Selected row not deleted - row not within data range!". \<open>TypeError\<close> is the
  error of reading a property of \<^verbatim>\<open>null\<close> or \<^verbatim>\<open>undefined\<close>, and \<open>ApiError\<close>
  the host's refusal of an array whose size is not the size of the range it is written to.
\<close>

datatype error = InvalidCodeError string | RangeError | TypeError | ApiError

text \<open>\<^verbatim>\<open>segments.join("-")\<close> on an array without holes.\<close>

definition join_segments :: "string list \<Rightarrow> string" where
  "join_segments segments = join_hyphen (map Some segments)"

text \<open>
  \<^verbatim>\<open>incrementLastItemCodeSegment\<close>: the last segment is converted with
  \<^verbatim>\<open>Number\<close>, the function throws when that is not-a-number, and otherwise the last
  segment is replaced by \<^verbatim>\<open>String(lastSegment + 1)\<close>.
\<close>

definition incrementLastItemCodeSegment :: "string \<Rightarrow> error + string" where
  "incrementLastItemCodeSegment itemCode =
     (let segments = split_hyphen itemCode;
          lastSegment = stringToNumber (last segments)
      in if isNaN lastSegment then Inl (InvalidCodeError itemCode)
         else Inr (join_segments
                (butlast segments @ [numberToString (numberAdd lastSegment (Finite 1))])))"

text \<open>
  A segment that is a valid integer in the sense of the specification: a non-empty string
  of decimal digits.
\<close>

definition validIntegerSegment :: "string \<Rightarrow> bool" where
  "validIntegerSegment s = (s \<noteq> [] \<and> list_all (is_digit 10) s)"

section \<open>The worksheet\<close>

text \<open>
  A cell read with \<^verbatim>\<open>getFormulas\<close> is a number or a string, as the scripts type it
  (\<^verbatim>\<open>number | string\<close>); the blank cell is the empty string.
\<close>

datatype cell = Num rat | Str string

text \<open>
  A row of the worksheet holds the columns the scripts read or write: B (item code), C
  (name), G (quantity), H (unit), I (rate) and J (cost). Columns B, C, H and J are typed
  \<^verbatim>\<open>string\<close> by the scripts. The worksheet is the list of its rows, row number
  \<open>r\<close> at index \<open>r - 1\<close>; every row past the end of the list is blank.
\<close>

record sheetrow =
  colB :: string
  colC :: string
  colG :: cell
  colH :: string
  colI :: cell
  colJ :: string

type_synonym sheet = "sheetrow list"

definition blankRow :: sheetrow where
  "blankRow = \<lparr>colB = [], colC = [], colG = Str [], colH = [], colI = Str [], colJ = []\<rparr>"

definition rowAt :: "sheet \<Rightarrow> nat \<Rightarrow> sheetrow" where
  "rowAt sh r = (if 0 < r \<and> r \<le> length sh then sh ! (r - 1) else blankRow)"

definition cellB :: "sheet \<Rightarrow> nat \<Rightarrow> string" where
  "cellB sh r = colB (rowAt sh r)"

text \<open>
  \<^verbatim>\<open>getRange("B" + r).getRangeEdge(down)\<close> is the host's jump to the edge of the
  data region below a cell of column B: from a filled cell with a filled cell under it,
  the last cell of that unbroken run; otherwise the next filled cell below, or the last
  row of the worksheet when there is none.
\<close>

definition lastWorksheetRow :: nat where
  "lastWorksheetRow = 1048576"

definition getRangeEdgeDown :: "sheet \<Rightarrow> nat \<Rightarrow> nat" where
  "getRangeEdgeDown sh r =
     (let below = drop r sh
      in if cellB sh r \<noteq> [] \<and> cellB sh (r + 1) \<noteq> []
         then r + length (takeWhile (\<lambda>x. colB x \<noteq> []) below)
         else let blanks = length (takeWhile (\<lambda>x. colB x = []) below)
              in if blanks < length below then r + 1 + blanks else max r lastWorksheetRow)"

text \<open>
  The rows of a range \<^verbatim>\<open>X<firstRow>:Y<lastRow>\<close>, and the rows read from it.
\<close>

definition rangeRows :: "nat \<Rightarrow> nat \<Rightarrow> nat list" where
  "rangeRows firstRow lastRow = [min firstRow lastRow ..< max firstRow lastRow + 1]"

definition getFormulas :: "sheet \<Rightarrow> nat \<Rightarrow> nat \<Rightarrow> sheetrow list" where
  "getFormulas sh firstRow lastRow = map (rowAt sh) (rangeRows firstRow lastRow)"

text \<open>
  Writing: \<open>setRow\<close> changes one row, \<open>setFormulas\<close> writes one array row to each
  row of a range. The host refuses an array whose number of rows is not that of the range.
\<close>

definition setRow :: "sheet \<Rightarrow> nat \<Rightarrow> (sheetrow \<Rightarrow> sheetrow) \<Rightarrow> sheet" where
  "setRow sh r f =
     (let sh' = sh @ replicate (r - length sh) blankRow in sh'[r - 1 := f (sh' ! (r - 1))])"

definition setFormulas ::
  "sheet \<Rightarrow> nat \<Rightarrow> nat \<Rightarrow> (sheetrow \<Rightarrow> sheetrow) list \<Rightarrow> error + sheet" where
  "setFormulas sh firstRow lastRow writes =
     (if length writes \<noteq> length (rangeRows firstRow lastRow) then Inl ApiError
      else Inr (foldl (\<lambda>s (r, f). setRow s r f) sh (zip (rangeRows firstRow lastRow) writes)))"

text \<open>
  \<^verbatim>\<open>getRange(firstRow + ":" + lastRow).delete(up)\<close>: the rows are removed and the rows
  below move up.
\<close>

definition deleteRows :: "sheet \<Rightarrow> nat \<Rightarrow> nat \<Rightarrow> sheet" where
  "deleteRows sh firstRow lastRow = take (min firstRow lastRow - 1) sh @ drop (max firstRow lastRow) sh"

section \<open>Activities\<close>

text \<open>
  The objects of the scripts: a row number with its item code, and the activity object
  that \<^verbatim>\<open>updateActivityRowFormulas\<close> builds for each row of the table.
\<^verbatim>\<open>transformTableToActivityObjects\<close> adds the name of the activity.
\<close>

record itemRow =
  rowNumber :: nat
  itemCode :: string

record activity = itemRow +
  quantity :: cell
  unit :: string
  rate :: cell
  cost :: string
  hierarchyLevel :: nat
  hasChild :: bool

record namedActivity = activity +
  activityName :: string

definition toActivityObject :: "nat \<Rightarrow> nat \<times> sheetrow \<Rightarrow> activity" where
  "toActivityObject dataTopRow ia =
     \<lparr>rowNumber = dataTopRow + fst ia, itemCode = colB (snd ia),
      quantity = colG (snd ia), unit = colH (snd ia), rate = colI (snd ia), cost = colJ (snd ia),
      hierarchyLevel = hierarchyLevelOf (colB (snd ia)), hasChild = False\<rparr>"

text \<open>
  The test of both the marking loop and the formula loops:
  \<^verbatim>\<open>item.itemCode.startsWith(parent.itemCode + "-") && item.hierarchyLevel === parent.hierarchyLevel + 1\<close>.
\<close>

definition isChildRow :: "'a activity_scheme \<Rightarrow> 'a activity_scheme \<Rightarrow> bool" where
  "isChildRow item parent =
     (startsWith (itemCode item) (itemCode parent @ [hyphen]) \<and>
      hierarchyLevel item = hierarchyLevel parent + 1)"

text \<open>
  The cost formula of a row that multiplies its own quantity and rate cells.
\<close>

definition costProductFormula :: "nat \<Rightarrow> string" where
  \<open>costProductFormula r =
     ''=IFERROR(IF(G'' @ string_of_nat r @ ''="-", "-", G'' @ string_of_nat r @ ''*I'' @
       string_of_nat r @ ''), "[pending values]")''\<close>

subsection \<open>Tree inference\<close>

text \<open>
  The marking loop \<^verbatim>\<open>for (i = 0; i < length - 1; i++)\<close>: one iteration compares row
  \<open>i\<close> with row \<open>i + 1\<close> and sets the flag of row \<open>i\<close> in place.
\<close>

definition markStep :: "'a activity_scheme list \<Rightarrow> nat \<Rightarrow> 'a activity_scheme list" where
  "markStep arr i =
     (if isChildRow (arr ! (i + 1)) (arr ! i) then arr[i := (arr ! i)\<lparr>hasChild := True\<rparr>]
      else arr)"

definition markHasChild :: "'a activity_scheme list \<Rightarrow> 'a activity_scheme list" where
  "markHasChild arr = foldl markStep arr [0 ..< length arr - 1]"

subsection \<open>The aggregator\<close>

text \<open>
  The roll-up formula of a parent: the text \<^verbatim>\<open>=SUM(\<close>, then \<^verbatim>\<open>J<row>,\<close> for
  every row of the array that passes the child test, then the last character dropped and
  the closing parenthesis appended.
\<close>

definition childSumFormula :: "activity list \<Rightarrow> activity \<Rightarrow> string" where
  "childSumFormula arr activity =
     butlast (foldl (\<lambda>formula item.
                 if isChildRow item activity
                 then formula @ ''J'' @ string_of_nat (rowNumber item) @ '',''
                 else formula) ''=SUM('' arr) @ '')''"

text \<open>
  The body of the \<^verbatim>\<open>forEach\<close> that updates the fields of one activity: the two
  policies of a row with children, and the placeholders of a leaf.
\<close>

definition updateActivity :: "activity list \<Rightarrow> activity \<Rightarrow> activity" where
  "updateActivity arr activity =
     (if hasChild activity then
        (if unit activity \<noteq> ''LS'' \<and> quantity activity \<noteq> Num 1 \<and>
            quantity activity \<noteq> Str ''[qty]''
         then activity\<lparr>rate := Str (childSumFormula arr activity),
                       cost := costProductFormula (rowNumber activity)\<rparr>
         else activity\<lparr>quantity := Num 1, unit := ''LS'', rate := Str [],
                       cost := childSumFormula arr activity\<rparr>)
      else activity\<lparr>
        quantity := (if quantity activity = Str [] then Str ''[qty]'' else quantity activity),
        unit := (if unit activity = [] then ''[unit]'' else unit activity),
        rate := (if rate activity = Str [] \<or> rate activity = Str ''#REF!'' then Str ''[rate]''
                 else rate activity),
        cost := costProductFormula (rowNumber activity)\<rparr>)"

text \<open>
  The \<^verbatim>\<open>forEach\<close> itself updates the array in place, one index after the other.
\<close>

definition updateActivities :: "activity list \<Rightarrow> activity list" where
  "updateActivities arr =
     foldl (\<lambda>a i. a[i := updateActivity a (a ! i)]) arr [0 ..< length arr]"

text \<open>
  The in-memory part of \<^verbatim>\<open>updateActivityRowFormulas\<close>: the objects with their
  marks, and then their fields.
\<close>

definition markedActivities :: "nat \<Rightarrow> sheetrow list \<Rightarrow> activity list" where
  "markedActivities dataTopRow tableData2D =
     markHasChild (map (toActivityObject dataTopRow) (enumerate 0 tableData2D))"

definition computeActivities :: "nat \<Rightarrow> sheetrow list \<Rightarrow> activity list" where
  "computeActivities dataTopRow tableData2D =
     updateActivities (markedActivities dataTopRow tableData2D)"

text \<open>
  The text of a sum over cost cells: \<^verbatim>\<open>=SUM(J<r1>,...,J<rn>)\<close> for the rows
  \<open>r1, ..., rn\<close>.
\<close>

fun commaSeparated :: "string list \<Rightarrow> string" where
  "commaSeparated [] = []"
| "commaSeparated [x] = x"
| "commaSeparated (x # y # ys) = x @ '','' @ commaSeparated (y # ys)"

definition sumOfCostCells :: "nat list \<Rightarrow> string" where
  "sumOfCostCells rows =
     ''=SUM('' @ commaSeparated (map (\<lambda>r. ''J'' @ string_of_nat r) rows) @ '')''"

text \<open>
  The write-back of columns G to J, and the formula of the grand-total row over the
  depth-0 rows.
\<close>

definition writeFormulas :: "activity \<Rightarrow> sheetrow \<Rightarrow> sheetrow" where
  "writeFormulas activity row =
     row\<lparr>colG := quantity activity, colH := unit activity, colI := rate activity,
         colJ := cost activity\<rparr>"

definition totalFormula :: "activity list \<Rightarrow> string" where
  "totalFormula arr =
     butlast (foldl (\<lambda>formula item.
                 if hierarchyLevel item = 0
                 then formula @ ''J'' @ string_of_nat (rowNumber item) @ '',''
                 else formula) ''=SUM('' arr) @ '')''"

text \<open>
  \<^verbatim>\<open>updateActivityRowFormulas\<close> of the insert script: it returns early on an empty
  table, and otherwise writes the fields of every row and the grand total.
\<close>

definition updateActivityRowFormulas :: "sheet \<Rightarrow> nat \<Rightarrow> error + sheet" where
  "updateActivityRowFormulas sh tableHeaderRow =
     (let bottomTotalsRow = getRangeEdgeDown sh tableHeaderRow;
          dataTopRow = tableHeaderRow + 1;
          dataBottomRow = bottomTotalsRow - 1
      in if dataBottomRow = tableHeaderRow then Inr sh
         else
           let arr = computeActivities dataTopRow (getFormulas sh dataTopRow dataBottomRow)
           in case setFormulas sh dataTopRow dataBottomRow (map writeFormulas arr) of
                Inl e \<Rightarrow> Inl e
              | Inr sh' \<Rightarrow>
                  Inr (setRow sh' bottomTotalsRow (\<lambda>row. row\<lparr>colJ := totalFormula arr\<rparr>)))"

text \<open>
  The copy of \<^verbatim>\<open>updateActivityRowFormulas\<close> in the delete script writes no grand
  total.
\<close>

definition updateActivityRowFormulas_refresh :: "sheet \<Rightarrow> nat \<Rightarrow> error + sheet" where
  "updateActivityRowFormulas_refresh sh tableHeaderRow =
     (let bottomTotalsRow = getRangeEdgeDown sh tableHeaderRow;
          dataTopRow = tableHeaderRow + 1;
          dataBottomRow = bottomTotalsRow - 1
      in if dataBottomRow = tableHeaderRow then Inr sh
         else
           let arr = computeActivities dataTopRow (getFormulas sh dataTopRow dataBottomRow)
           in setFormulas sh dataTopRow dataBottomRow (map writeFormulas arr))"

section \<open>The delete script\<close>

text \<open>
  \<^verbatim>\<open>transformTableToActivityObjects\<close>: the bounds of the data rows, the objects with
  their marks, and the rate of every marked row cleared. It only reads the worksheet.
\<close>

definition toNamedActivityObject :: "nat \<Rightarrow> nat \<times> sheetrow \<Rightarrow> namedActivity" where
  "toNamedActivityObject dataTopRow ia =
     \<lparr>rowNumber = dataTopRow + fst ia, itemCode = colB (snd ia),
      quantity = colG (snd ia), unit = colH (snd ia), rate = colI (snd ia), cost = colJ (snd ia),
      hierarchyLevel = hierarchyLevelOf (colB (snd ia)), hasChild = False,
      activityName = colC (snd ia)\<rparr>"

definition transformTableToActivityObjects ::
  "sheet \<Rightarrow> nat \<Rightarrow> namedActivity list \<times> nat \<times> nat" where
  "transformTableToActivityObjects sh tableHeaderRow =
     (let bottomTotalsRow = getRangeEdgeDown sh tableHeaderRow;
          dataTopRow = tableHeaderRow + 1;
          dataBottomRow = bottomTotalsRow - 1
      in if dataBottomRow < dataTopRow then ([], dataTopRow, dataBottomRow)
         else
           let tableData2D = getFormulas sh dataTopRow dataBottomRow;
               arr = markHasChild (map (toNamedActivityObject dataTopRow) (enumerate 0 tableData2D))
           in (map (\<lambda>activity. if hasChild activity then activity\<lparr>rate := Str []\<rparr>
                                  else activity) arr,
               dataTopRow, dataBottomRow))"

text \<open>
  \<^verbatim>\<open>refreshActivityItemCodes\<close> writes the reindexed codes to column B.
\<close>

definition refreshActivityItemCodes :: "sheet \<Rightarrow> nat \<Rightarrow> error + sheet" where
  "refreshActivityItemCodes sh tableHeaderRow =
     (let (activityObjectsArray, dataTopRow, dataBottomRow) =
            transformTableToActivityObjects sh tableHeaderRow;
          newItemCodes = reindexItemCodes (map itemCode activityObjectsArray)
      in setFormulas sh dataTopRow dataBottomRow
           (map (\<lambda>code row. row\<lparr>colB := code\<rparr>) newItemCodes))"

text \<open>
  The workbook: its active worksheet and the selected range (0-based index of its first
  row, number of rows).
\<close>

record workbook =
  activeWorksheet :: sheet
  selectedRowIndex :: nat
  selectedRowCount :: nat

text \<open>
  \<^verbatim>\<open>deleteSelectedActivitiesAndRefresh\<close> returns the error it threw, if any, and the
  worksheet as it stands when the script ends.
\<close>

definition deleteSelectedActivitiesAndRefresh :: "workbook \<Rightarrow> error option \<times> sheet" where
  "deleteSelectedActivitiesAndRefresh wb =
     (let sh = activeWorksheet wb;
          activeRangeTopRow = selectedRowIndex wb + 1;
          activeRangeBottomRow = activeRangeTopRow + selectedRowCount wb - 1;
          (activityObjectsArray, dataTopRow, dataBottomRow) =
            transformTableToActivityObjects sh 9
      in if activeRangeTopRow < dataTopRow \<or> activeRangeBottomRow > dataBottomRow
         then (Some RangeError, sh)
         else
           let sh1 = deleteRows sh activeRangeTopRow activeRangeBottomRow
           in case refreshActivityItemCodes sh1 9 of
                Inl e \<Rightarrow> (Some e, sh1)
              | Inr sh2 \<Rightarrow>
                  (case updateActivityRowFormulas_refresh sh2 9 of
                     Inl e \<Rightarrow> (Some e, sh2)
                   | Inr sh3 \<Rightarrow> (None, sh3)))"

section \<open>The insertion planner\<close>

text \<open>
  \<^verbatim>\<open>getAllItemCodesFromGivenRow\<close>: the rows from the start row down to the edge of
  the extended range, each with its row number.
\<close>

definition getAllItemCodesFromGivenRow :: "sheet \<Rightarrow> nat \<Rightarrow> itemRow list" where
  "getAllItemCodesFromGivenRow sh startRow =
     map (\<lambda>r. \<lparr>rowNumber = r, itemCode = cellB sh r\<rparr>)
       [startRow ..< getRangeEdgeDown sh startRow + 1]"

text \<open>
  \<^verbatim>\<open>getAllChildActivityItemCodes\<close>: the rows below the parent whose code starts
  with the parent code and a hyphen, at a deeper level.
\<close>

definition getAllChildActivityItemCodes :: "sheet \<Rightarrow> nat \<Rightarrow> itemRow list" where
  "getAllChildActivityItemCodes sh row =
     (let parentCode = cellB sh row;
          parentLevel = hierarchyLevelOf parentCode;
          itemCodesBelow = getAllItemCodesFromGivenRow sh (row + 1)
      in filter (\<lambda>item. startsWith (itemCode item) (parentCode @ [hyphen]) \<and>
                          hierarchyLevelOf (itemCode item) > parentLevel) itemCodesBelow)"

text \<open>
  \<^verbatim>\<open>computeNewChildItemCodeAndInsertionRow\<close>. In the second case the source reads
  \<^verbatim>\<open>item.itemCode.match(/-/g).length\<close>, a type error on a code without a hyphen, and
  \<^verbatim>\<open>lastImmediateChild.itemCode\<close>, a type error when no child has the level below
  the parent.
\<close>

record insertionPlan =
  newChildInsertionRow :: nat
  newChildItemCode :: string
  newChildHierarchyLevel :: nat

definition computeNewChildItemCodeAndInsertionRow :: "sheet \<Rightarrow> nat \<Rightarrow> error + insertionPlan" where
  "computeNewChildItemCodeAndInsertionRow sh selectedParentRow =
     (let parentItemCode = cellB sh selectedParentRow;
          parentHierarchyLevel = hierarchyLevelOf parentItemCode;
          childItems = getAllChildActivityItemCodes sh selectedParentRow
      in if length childItems = 0
         then Inr \<lparr>newChildInsertionRow = selectedParentRow + 1,
                   newChildItemCode = parentItemCode @ ''-1'',
                   newChildHierarchyLevel = parentHierarchyLevel + 1\<rparr>
         else if list_ex (\<lambda>item. hierarchyLevelOf (itemCode item) = 0) childItems
         then Inl TypeError
         else
           let matchingLevelChildren =
                 filter (\<lambda>item. hierarchyLevelOf (itemCode item) = parentHierarchyLevel + 1)
                   childItems
           in if matchingLevelChildren = [] then Inl TypeError
              else case incrementLastItemCodeSegment (itemCode (last matchingLevelChildren)) of
                     Inl e \<Rightarrow> Inl e
                   | Inr code \<Rightarrow>
                       Inr \<lparr>newChildInsertionRow = rowNumber (last childItems) + 1,
                            newChildItemCode = code,
                            newChildHierarchyLevel = parentHierarchyLevel + 1\<rparr>)"

text \<open>
  A list of codes in pre-order depth-first sequence, in the words of the glossary: a node
  immediately precedes its first child, and all descendants of a node appear contiguously
  before its next sibling. A descendant of a code starts with the code and a hyphen; a
  child is a descendant one level below. So a code that has a child later in the list has
  one as its immediate successor, and the descendants of a code are the unbroken run of
  rows after it: none comes after the first row that is not a descendant.
\<close>

fun preorder :: "string list \<Rightarrow> bool" where
  "preorder [] = True"
| "preorder (c # cs) =
     ((let isDescendant = (\<lambda>x. startsWith x (c @ [hyphen]));
           isChild = (\<lambda>x. startsWith x (c @ [hyphen]) \<and>
                          hierarchyLevelOf x = hierarchyLevelOf c + 1)
       in (if list_ex isChild cs then isChild (hd cs) else True) \<and>
          list_all (\<lambda>x. \<not> isDescendant x) (dropWhile isDescendant cs)) \<and>
      preorder cs)"

text \<open>
  The depth-and-prefix rule between a row of the table and its immediate successor: the
  successor exists, its code starts with the code of the row followed by a hyphen, and
  its depth is the depth of the row plus one.
\<close>

definition successorIsChild :: "sheetrow list \<Rightarrow> nat \<Rightarrow> bool" where
  "successorIsChild rows i =
     (i + 1 < length rows \<and>
      startsWith (colB (rows ! (i + 1))) (colB (rows ! i) @ [hyphen]) \<and>
      hierarchyLevelOf (colB (rows ! (i + 1))) = hierarchyLevelOf (colB (rows ! i)) + 1)"

text \<open>
  What the formula loops read of the other rows of the array: code, level and row number.
\<close>

definition keys :: "activity list \<Rightarrow> (string \<times> nat \<times> nat) list" where
  "keys arr = map (\<lambda>x. (itemCode x, hierarchyLevel x, rowNumber x)) arr"

section \<open>A table for the examples\<close>

text \<open>
  Header in row 9, five rows of data in rows 10 to 14 and the grand-total row in row 15.
\<close>

definition tableRow :: "string \<Rightarrow> cell \<Rightarrow> string \<Rightarrow> cell \<Rightarrow> sheetrow" where
  "tableRow code qty u r = \<lparr>colB = code, colC = [], colG = qty, colH = u, colI = r, colJ = []\<rparr>"

definition exampleRows :: "sheetrow list" where
  "exampleRows =
     [tableRow ''A'' (Num 1) ''LS'' (Str []),
      tableRow ''A-1'' (Num 5) ''m'' (Str []),
      tableRow ''A-1-1'' (Str []) [] (Str ''#REF!''),
      tableRow ''A-1-3'' (Num 2) ''m'' (Num 7),
      tableRow ''A-3'' (Str []) [] (Str [])]"

definition exampleSheet :: sheet where
  "exampleSheet = replicate 8 blankRow @ [tableRow ''Item'' (Str ''Qty'') ''Unit'' (Str ''Rate'')] @
     exampleRows @ [tableRow ''Total'' (Str []) [] (Str [])]"

text \<open>
  A table with descendants at several depths: header in row 9, the codes A, A-1, A-1-1,
  A-1-1-1, A-1-1-2, A-1-1-3, A-1-2, A-1-2-1 and A-2 in rows 10 to 18, the grand-total row
  in row 19.
\<close>

definition plannerSheet :: sheet where
  "plannerSheet = replicate 8 blankRow @
     map (\<lambda>code. tableRow code (Str []) [] (Str []))
       [''Item'', ''A'', ''A-1'', ''A-1-1'', ''A-1-1-1'', ''A-1-1-2'', ''A-1-1-3'', ''A-1-2'',
        ''A-1-2-1'', ''A-2'', ''Total'']"

text \<open>
  A table of the delete script's making: header in row 9, the codes A, A-1 and A-1-1 in
  rows 10 to 12 and the grand-total row in row 13, with row 11 selected. Without row 11
  the script renumbers the codes to A and A--1.
\<close>

definition orphanWorkbook :: workbook where
  "orphanWorkbook =
     \<lparr>activeWorksheet = replicate 8 blankRow @
        map (\<lambda>code. tableRow code (Str []) [] (Str [])) [''Item'', ''A'', ''A-1'', ''A-1-1'', ''Total''],
      selectedRowIndex = 10, selectedRowCount = 1\<rparr>"

definition orphanSheet :: sheet where
  "orphanSheet = replicate 8 blankRow @
     map (\<lambda>code. tableRow code (Str []) [] (Str [])) [''Item'', ''A'', ''A--1'', ''Total'']"

section \<open>Properties of strings and arrays\<close>

lemma split_hyphen_nonempty: "split_hyphen s \<noteq> []"
  by (induction s) auto

lemma length_split_hyphen: "length (split_hyphen s) = hierarchyLevelOf s + 1"
proof (induction s)
  case Nil
  then show ?case by (simp add: hierarchyLevelOf_def)
next
  case (Cons c cs)
  have "length (tl (split_hyphen cs)) = hierarchyLevelOf cs"
    using Cons by simp
  then show ?case using Cons by (simp add: hierarchyLevelOf_def)
qed

lemma split_hyphen_parts: "p \<in> set (split_hyphen s) \<Longrightarrow> hyphen \<notin> set p"
proof (induction s arbitrary: p)
  case Nil
  then show ?case by simp
next
  case (Cons c cs)
  have ne: "split_hyphen cs \<noteq> []" by (rule split_hyphen_nonempty)
  show ?case
  proof (cases "c = hyphen")
    case True
    with Cons show ?thesis by auto
  next
    case False
    with Cons.prems have "p = c # hd (split_hyphen cs) \<or> p \<in> set (tl (split_hyphen cs))"
      by simp
    then show ?thesis
    proof
      assume "p = c # hd (split_hyphen cs)"
      moreover have "hyphen \<notin> set (hd (split_hyphen cs))"
        using Cons.IH ne by simp
      ultimately show ?thesis using False by auto
    next
      assume "p \<in> set (tl (split_hyphen cs))"
      then have "p \<in> set (split_hyphen cs)" using ne by (meson list.set_sel(2))
      then show ?thesis by (rule Cons.IH)
    qed
  qed
qed

lemma split_hyphen_plain: "hyphen \<notin> set s \<Longrightarrow> split_hyphen s = [s]"
  by (induction s) auto

lemma level_zero_plain: "hierarchyLevelOf s = 0 \<longleftrightarrow> hyphen \<notin> set s"
  by (auto simp: hierarchyLevelOf_def filter_empty_conv)

lemma split_hyphen_append:
  "hyphen \<notin> set r \<Longrightarrow> split_hyphen (r @ hyphen # t) = r # split_hyphen t"
  by (induction r) auto

lemma level_append: "hierarchyLevelOf (a @ b) = hierarchyLevelOf a + hierarchyLevelOf b"
  by (simp add: hierarchyLevelOf_def)

lemma digit_char_not_hyphen: "digit_char d \<noteq> hyphen"
  by (simp add: digit_char_def hyphen_def)

lemma string_of_nat_plain: "hyphen \<notin> set (string_of_nat n)"
proof (induction n rule: string_of_nat.induct)
  case (1 n)
  show ?case
  proof (cases "n < 10")
    case True
    then show ?thesis
      by (subst string_of_nat.simps) (simp add: digit_char_not_hyphen [symmetric])
  next
    case False
    with 1 show ?thesis
      by (subst string_of_nat.simps) (simp add: digit_char_not_hyphen [symmetric])
  qed
qed

lemma level_join_hyphen:
  "path_ok xs \<Longrightarrow> hierarchyLevelOf (join_hyphen xs) = length xs - 1"
proof (induction xs rule: join_hyphen.induct)
  case 1
  then show ?case by (simp add: hierarchyLevelOf_def)
next
  case (2 x)
  then show ?case
    by (cases x) (auto simp: path_ok_def hierarchyLevelOf_def filter_empty_conv)
next
  case (3 x y ys)
  have "path_ok (y # ys)" using 3(2) by (auto simp: path_ok_def)
  then have "hierarchyLevelOf (join_hyphen (y # ys)) = length ys" using 3(1) by simp
  moreover have "hierarchyLevelOf (case x of None \<Rightarrow> [] | Some s \<Rightarrow> s) = 0"
    using 3(2) by (cases x) (auto simp: path_ok_def level_zero_plain)
  moreover have "hierarchyLevelOf [hyphen] = 1" by (simp add: hierarchyLevelOf_def)
  moreover have "join_hyphen (x # y # ys) =
      (case x of None \<Rightarrow> [] | Some s \<Rightarrow> s) @ [hyphen] @ join_hyphen (y # ys)"
    by simp
  ultimately show ?case by (simp only: level_append) simp
qed

lemma path_ok_set_length: "path_ok ps \<Longrightarrow> path_ok (set_length n ps)"
  by (auto simp: path_ok_def set_length_def dest: in_set_takeD)

lemma path_ok_assign_index:
  "path_ok ps \<Longrightarrow> hyphen \<notin> set v \<Longrightarrow> path_ok (assign_index i v ps)"
  by (auto simp: path_ok_def assign_index_def dest!: set_update_subset_insert [THEN subsetD])

lemma path_ok_slice: "path_ok ps \<Longrightarrow> path_ok (slice a b ps)"
  by (auto simp: path_ok_def slice_def dest: in_set_takeD in_set_dropD)

lemma template_plain: "path_ok ps \<Longrightarrow> hyphen \<notin> set (template (read_index i ps))"
proof (cases "read_index i ps")
  case None
  then show ?thesis by (simp add: template_def hyphen_def)
next
  case (Some s)
  then have "Some s \<in> set ps"
    by (metis nth_mem option.distinct(1) read_index_def)
  moreover assume "path_ok ps"
  ultimately show ?thesis using Some by (simp add: path_ok_def template_def)
qed

lemma length_set_length: "length (set_length n xs) = n"
  by (simp add: set_length_def)

lemma length_assign_index: "length (assign_index i v xs) = max (length xs) (i + 1)"
  by (simp add: assign_index_def)

section \<open>Properties of the reindexer\<close>

subsection \<open>One iteration\<close>

lemma reindex_step_root:
  assumes "hierarchyLevelOf code = 0"
  shows "reindex_step st code =
    ((assign_index 0 code (set_length 0 (fst st)), assign_index 0 0 (set_length 1 (snd st))), code)"
proof -
  have "hyphen \<notin> set code" using assms by (simp add: level_zero_plain)
  then have sp: "split_hyphen code = [code]" by (rule split_hyphen_plain)
  show ?thesis
    by (simp add: reindex_step_def sp Let_def template_def read_index_def assign_index_def
        set_length_def)
qed

lemma reindex_step_nested:
  assumes "hierarchyLevelOf code = level" and "0 < level"
  shows "reindex_step st code =
    (let pathStack = set_length level (fst st);
         levelCounters = set_length (level + 1) (snd st);
         n = (case read_index level levelCounters of None \<Rightarrow> 0 | Some k \<Rightarrow> k) + 1;
         levelCounters' = assign_index level n levelCounters;
         pathStack' = assign_index level (string_of_nat n) pathStack
     in ((pathStack', levelCounters'),
         template (read_index 0 pathStack') @ [hyphen] @
           join_hyphen (slice 1 (level + 1) pathStack')))"
  using assms by (simp add: reindex_step_def length_split_hyphen Let_def)

lemma reindex_step_path_ok:
  assumes "path_ok (fst st)"
  shows "path_ok (fst (fst (reindex_step st code)))"
proof (cases "hierarchyLevelOf code = 0")
  case True
  then have "hyphen \<notin> set code" by (simp add: level_zero_plain)
  then show ?thesis
    using assms True
    by (simp add: reindex_step_root path_ok_assign_index path_ok_set_length)
next
  case False
  then show ?thesis
    using assms
    by (simp add: reindex_step_nested [OF refl] Let_def path_ok_assign_index
        path_ok_set_length string_of_nat_plain)
qed

lemma reindex_step_level:
  assumes "path_ok (fst st)"
  shows "hierarchyLevelOf (snd (reindex_step st code)) = hierarchyLevelOf code"
proof (cases "hierarchyLevelOf code = 0")
  case True
  then show ?thesis by (simp add: reindex_step_root)
next
  case False
  define level where "level = hierarchyLevelOf code"
  define ps where "ps = fst (fst (reindex_step st code))"
  have pos: "0 < level" using False by (simp add: level_def)
  have ok: "path_ok ps" unfolding ps_def using assms by (rule reindex_step_path_ok)
  have len: "length ps = level + 1"
    using pos by (simp add: ps_def level_def reindex_step_nested [OF refl] Let_def
        length_assign_index length_set_length)
  have out: "snd (reindex_step st code) =
      template (read_index 0 ps) @ [hyphen] @ join_hyphen (slice 1 (level + 1) ps)"
    using pos by (simp add: ps_def level_def reindex_step_nested [OF refl] Let_def)
  have "length (slice 1 (level + 1) ps) = level"
    using len by (simp add: slice_def)
  moreover have "path_ok (slice 1 (level + 1) ps)" using ok by (rule path_ok_slice)
  ultimately have "hierarchyLevelOf (join_hyphen (slice 1 (level + 1) ps)) = level - 1"
    by (simp add: level_join_hyphen)
  moreover have "hierarchyLevelOf (template (read_index 0 ps)) = 0"
    using ok by (simp add: level_zero_plain template_plain)
  moreover have "hierarchyLevelOf [hyphen] = 1" by (simp add: hierarchyLevelOf_def)
  ultimately have "hierarchyLevelOf (snd (reindex_step st code)) = level"
    using pos by (simp only: out level_append)
  then show ?thesis by (simp add: level_def)
qed

lemma reindex_step_verbatim:
  "hierarchyLevelOf code = 0 \<Longrightarrow> snd (reindex_step st code) = code"
  by (simp add: reindex_step_root)

lemma reindex_step_cong:
  assumes "hierarchyLevelOf code' = hierarchyLevelOf code"
    and "hierarchyLevelOf code = 0 \<Longrightarrow> code' = code"
  shows "reindex_step st code' = reindex_step st code"
proof (cases "hierarchyLevelOf code = 0")
  case True
  then show ?thesis using assms by simp
next
  case False
  then show ?thesis
    using assms(1) reindex_step_nested [of code "hierarchyLevelOf code" st]
      reindex_step_nested [of code' "hierarchyLevelOf code" st]
    by simp
qed

lemma reindex_loop_idem:
  "path_ok (fst st) \<Longrightarrow> reindex_loop st (reindex_loop st codes) = reindex_loop st codes"
proof (induction codes arbitrary: st)
  case Nil
  then show ?case by simp
next
  case (Cons code codes)
  let ?new = "snd (reindex_step st code)"
  have "reindex_step st ?new = reindex_step st code"
    using Cons.prems
    by (intro reindex_step_cong) (simp_all add: reindex_step_level reindex_step_verbatim)
  moreover have "path_ok (fst (fst (reindex_step st code)))"
    using Cons.prems by (rule reindex_step_path_ok)
  ultimately show ?case using Cons.IH by simp
qed

lemma length_reindex_loop: "length (reindex_loop st codes) = length codes"
  by (induction codes arbitrary: st) auto

subsection \<open>The whole loop\<close>

lemma nearestRoot_snoc:
  "nearestRoot (cs @ [c]) = (if hierarchyLevelOf c = 0 then Some c else nearestRoot cs)"
  by (simp add: nearestRoot_def Let_def)

lemma state_after_snoc:
  "state_after st (cs @ [c]) = fst (reindex_step (state_after st cs) c)"
  by (simp add: state_after_def)

lemma state_after_Cons:
  "state_after st (c # cs) = state_after (fst (reindex_step st c)) cs"
  by (simp add: state_after_def)

lemma state_after_path_ok: "path_ok (fst st) \<Longrightarrow> path_ok (fst (state_after st cs))"
  by (induction cs rule: rev_induct)
     (simp_all add: state_after_snoc reindex_step_path_ok, simp add: state_after_def)

lemma reindex_step_root_slot:
  "read_index 0 (fst (fst (reindex_step st c))) =
     (if hierarchyLevelOf c = 0 then Some c else read_index 0 (fst st))"
proof (cases "hierarchyLevelOf c = 0")
  case True
  then show ?thesis
    by (simp add: reindex_step_root read_index_def assign_index_def set_length_def)
next
  case False
  then have pos: "0 < hierarchyLevelOf c" by simp
  show ?thesis
    using pos
    by (cases "fst st")
       (auto simp: reindex_step_nested [OF refl] Let_def read_index_def assign_index_def
          set_length_def nth_append)
qed

lemma state_after_root_slot:
  "read_index 0 (fst (state_after ([], []) cs)) = nearestRoot cs"
proof (induction cs rule: rev_induct)
  case Nil
  then show ?case by (simp add: state_after_def nearestRoot_def read_index_def)
next
  case (snoc c cs)
  then show ?case
    by (simp add: state_after_snoc nearestRoot_snoc reindex_step_root_slot)
qed

lemma reindex_loop_nth:
  "i < length cs \<Longrightarrow>
     reindex_loop st cs ! i = snd (reindex_step (state_after st (take i cs)) (cs ! i))"
proof (induction cs arbitrary: st i)
  case Nil
  then show ?case by simp
next
  case (Cons c cs)
  show ?case
  proof (cases i)
    case 0
    then show ?thesis by (simp add: state_after_def)
  next
    case (Suc j)
    with Cons.prems have "j < length cs" by simp
    then show ?thesis using Suc Cons.IH by (simp add: state_after_Cons)
  qed
qed

lemma reindex_step_first_segment:
  assumes "path_ok (fst st)" and "0 < hierarchyLevelOf c"
  shows "hd (split_hyphen (snd (reindex_step st c))) = template (read_index 0 (fst st))"
proof -
  define ps where "ps = fst (fst (reindex_step st c))"
  have ok: "path_ok ps" unfolding ps_def using assms(1) by (rule reindex_step_path_ok)
  have "read_index 0 ps = read_index 0 (fst st)"
    using assms(2) by (simp add: ps_def reindex_step_root_slot)
  moreover have "snd (reindex_step st c) =
      template (read_index 0 ps) @ hyphen # join_hyphen (slice 1 (hierarchyLevelOf c + 1) ps)"
    using assms(2) by (simp add: ps_def reindex_step_nested [OF refl] Let_def)
  moreover have "hyphen \<notin> set (template (read_index 0 ps))"
    using ok by (rule template_plain)
  ultimately show ?thesis by (simp add: split_hyphen_append)
qed

lemma reindexItemCodes_first_segment:
  assumes "i < length l" and "0 < hierarchyLevelOf (l ! i)"
  shows "hd (split_hyphen (reindexItemCodes l ! i)) = template (nearestRoot (take i l))"
proof -
  have "path_ok (fst (state_after ([], []) (take i l)))"
    by (rule state_after_path_ok) (simp add: path_ok_def)
  then show ?thesis
    using assms
    by (simp add: reindexItemCodes_def reindex_loop_nth reindex_step_first_segment
        state_after_root_slot)
qed

lemma reindexItemCodes_level:
  assumes "i < length l"
  shows "hierarchyLevelOf (reindexItemCodes l ! i) = hierarchyLevelOf (l ! i)"
proof -
  have "path_ok (fst (state_after ([], []) (take i l)))"
    by (rule state_after_path_ok) (simp add: path_ok_def)
  then show ?thesis
    using assms by (simp add: reindexItemCodes_def reindex_loop_nth reindex_step_level)
qed

lemma reindexItemCodes_verbatim:
  assumes "i < length l" and "hierarchyLevelOf (l ! i) = 0"
  shows "reindexItemCodes l ! i = l ! i"
  using assms by (simp add: reindexItemCodes_def reindex_loop_nth reindex_step_verbatim)

subsection \<open>The claims\<close>

text \<open>
  Claim C2. The reindexer maps the documented example list
  A, A-1, A-1-1, A-1-3, A-2, A-2-1, A-3, A-3-2 to
  A, A-1, A-1-1, A-1-2, A-2, A-2-1, A-3, A-3-1.
\<close>

theorem reindexItemCodes_example:
  "reindexItemCodes [''A'', ''A-1'', ''A-1-1'', ''A-1-3'', ''A-2'', ''A-2-1'', ''A-3'', ''A-3-2'']
     = [''A'', ''A-1'', ''A-1-1'', ''A-1-2'', ''A-2'', ''A-2-1'', ''A-3'', ''A-3-1'']"
  by code_simp

text \<open>
  Claim C3. The reindexer is idempotent: reindexing the output of the reindexer returns
  it unchanged, for every input list.
\<close>

theorem reindexItemCodes_idempotent:
  "reindexItemCodes (reindexItemCodes l) = reindexItemCodes l"
  by (simp add: reindexItemCodes_def reindex_loop_idem path_ok_def)

text \<open>
  Claim C4, as stated, asks that for every input list only non-root segments change. The
  loop reads of a nested code only its depth and rebuilds the whole code from the path
  stack, whose first entry is the nearest preceding depth-0 code, so the root segment
  changes when the code names another root: B-1 after A becomes A-1.
\<close>

theorem reindexItemCodes_root_counterexample:
  "reindexItemCodes [''A'', ''B-1''] = [''A'', ''A-1''] \<and>
   hd (split_hyphen (reindexItemCodes [''A'', ''B-1''] ! 1)) \<noteq> hd (split_hyphen ([''A'', ''B-1''] ! 1))"
  by code_simp

text \<open>
  Claim C4, amended. For every input list the reindexer returns a list of the same
  length, the i-th output code has the depth of the i-th input code, and a depth-0 code
  is returned verbatim. A code whose first segment is the label of the nearest preceding
  depth-0 code keeps its first segment, so only its non-root segments change.
\<close>

theorem reindexItemCodes_preserves:
  "length (reindexItemCodes l) = length l \<and>
   (\<forall>i<length l.
      hierarchyLevelOf (reindexItemCodes l ! i) = hierarchyLevelOf (l ! i) \<and>
      (hierarchyLevelOf (l ! i) = 0 \<longrightarrow> reindexItemCodes l ! i = l ! i) \<and>
      (nearestRoot (take i l) = Some (hd (split_hyphen (l ! i))) \<longrightarrow>
         hd (split_hyphen (reindexItemCodes l ! i)) = hd (split_hyphen (l ! i))))"
proof (intro conjI allI impI)
  show "length (reindexItemCodes l) = length l"
    by (simp add: reindexItemCodes_def length_reindex_loop)
next
  fix i assume "i < length l"
  then show "hierarchyLevelOf (reindexItemCodes l ! i) = hierarchyLevelOf (l ! i)"
    by (rule reindexItemCodes_level)
next
  fix i assume "i < length l" and "hierarchyLevelOf (l ! i) = 0"
  then show "reindexItemCodes l ! i = l ! i" by (rule reindexItemCodes_verbatim)
next
  fix i assume i: "i < length l"
    and r: "nearestRoot (take i l) = Some (hd (split_hyphen (l ! i)))"
  show "hd (split_hyphen (reindexItemCodes l ! i)) = hd (split_hyphen (l ! i))"
  proof (cases "hierarchyLevelOf (l ! i) = 0")
    case True
    with i show ?thesis by (simp add: reindexItemCodes_verbatim)
  next
    case False
    with i r show ?thesis by (simp add: reindexItemCodes_first_segment template_def)
  qed
qed

theorem reindexItemCodes_preserves_witness:
  "length (reindexItemCodes [''A'', ''A-1'', ''A-1-3'']) = 3 \<and>
   hierarchyLevelOf (reindexItemCodes [''A'', ''A-1'', ''A-1-3''] ! 2) = 2 \<and>
   reindexItemCodes [''A'', ''A-1'', ''A-1-3''] ! 0 = ''A'' \<and>
   hd (split_hyphen (reindexItemCodes [''A'', ''A-1'', ''A-1-3''] ! 2)) = ''A''"
proof -
  let ?l = "[''A'', ''A-1'', ''A-1-3'']"
  note t = reindexItemCodes_preserves [of ?l]
  have len: "length ?l = 3" by simp
  have r: "nearestRoot (take 2 ?l) = Some (hd (split_hyphen (?l ! 2)))"
    by (simp add: nearestRoot_def hierarchyLevelOf_def hyphen_def)
  have l0: "hierarchyLevelOf (?l ! 0) = 0" by (simp add: hierarchyLevelOf_def hyphen_def)
  have l2: "hierarchyLevelOf (?l ! 2) = 2" by (simp add: hierarchyLevelOf_def hyphen_def)
  have h2: "hd (split_hyphen (?l ! 2)) = ''A''" by (simp add: hyphen_def)
  from t have a: "length (reindexItemCodes ?l) = 3" by simp
  from t have b: "\<And>i. i < 3 \<Longrightarrow>
      hierarchyLevelOf (reindexItemCodes ?l ! i) = hierarchyLevelOf (?l ! i) \<and>
      (hierarchyLevelOf (?l ! i) = 0 \<longrightarrow> reindexItemCodes ?l ! i = ?l ! i) \<and>
      (nearestRoot (take i ?l) = Some (hd (split_hyphen (?l ! i))) \<longrightarrow>
         hd (split_hyphen (reindexItemCodes ?l ! i)) = hd (split_hyphen (?l ! i)))"
    by simp
  have b2: "hierarchyLevelOf (reindexItemCodes ?l ! 2) = 2"
    using b [of 2] l2 by simp
  have b0: "reindexItemCodes ?l ! 0 = ''A''"
    using b [of 0] l0 by simp
  have b3: "hd (split_hyphen (reindexItemCodes ?l ! 2)) = ''A''"
    using b [of 2] r h2 by simp
  from a b2 b0 b3 show ?thesis by simp
qed

section \<open>Properties of item codes\<close>

lemma incrementLastItemCodeSegment_throws_iff:
  "(\<exists>e. incrementLastItemCodeSegment code = Inl e) \<longleftrightarrow>
     isNaN (stringToNumber (last (split_hyphen code)))"
  by (simp add: incrementLastItemCodeSegment_def Let_def)

text \<open>
  Claim C10. The increment throws exactly when the final segment converts to
  not-a-number. An empty final segment converts to 0 and a decimal one to its value, so
  A- gives A-1 and A-1.5 gives A-2.5.
\<close>

theorem incrementLastItemCodeSegment_throws_iff_NaN:
  "(\<forall>code. (\<exists>e. incrementLastItemCodeSegment code = Inl e) \<longleftrightarrow>
       isNaN (stringToNumber (last (split_hyphen code)))) \<and>
   incrementLastItemCodeSegment ''A-'' = Inr ''A-1'' \<and>
   incrementLastItemCodeSegment ''A-1.5'' = Inr ''A-2.5''"
proof (intro conjI allI)
  show "incrementLastItemCodeSegment ''A-'' = Inr ''A-1''" by code_simp
  show "incrementLastItemCodeSegment ''A-1.5'' = Inr ''A-2.5''" by code_simp
qed (rule incrementLastItemCodeSegment_throws_iff)

theorem incrementLastItemCodeSegment_throws_iff_NaN_witness:
  "(\<exists>e. incrementLastItemCodeSegment ''A-x'' = Inl e) \<and>
   isNaN (stringToNumber (last (split_hyphen ''A-x'')))"
proof -
  have "isNaN (stringToNumber (last (split_hyphen ''A-x'')))" by code_simp
  then show ?thesis
    using incrementLastItemCodeSegment_throws_iff_NaN by blast
qed

text \<open>
  Claim C6, as stated, has the increment fail on every final segment that is not a valid
  integer. The segment 1.5 is not one, and the increment returns A-2.5.
\<close>

theorem incrementLastItemCodeSegment_decimal_counterexample:
  "\<not> validIntegerSegment (last (split_hyphen ''A-1.5'')) \<and>
   incrementLastItemCodeSegment ''A-1.5'' = Inr ''A-2.5''"
  by code_simp

text \<open>
  Claim C6, amended. The increment of A-1-3 is A-1-4, and for every code whose final
  segment does not convert to a number, such as the root-only code A, the increment
  fails with the invalid-code error of that code.
\<close>

theorem incrementLastItemCodeSegment_invalid:
  "incrementLastItemCodeSegment ''A-1-3'' = Inr ''A-1-4'' \<and>
   incrementLastItemCodeSegment ''A'' = Inl (InvalidCodeError ''A'') \<and>
   (\<forall>code. isNaN (stringToNumber (last (split_hyphen code))) \<longrightarrow>
      incrementLastItemCodeSegment code = Inl (InvalidCodeError code))"
proof (intro conjI allI impI)
  show "incrementLastItemCodeSegment ''A-1-3'' = Inr ''A-1-4''" by code_simp
  show "incrementLastItemCodeSegment ''A'' = Inl (InvalidCodeError ''A'')" by code_simp
next
  fix code
  assume "isNaN (stringToNumber (last (split_hyphen code)))"
  then show "incrementLastItemCodeSegment code = Inl (InvalidCodeError code)"
    by (simp add: incrementLastItemCodeSegment_def Let_def)
qed

theorem incrementLastItemCodeSegment_invalid_witness:
  "isNaN (stringToNumber (last (split_hyphen ''A-1-x''))) \<and>
   incrementLastItemCodeSegment ''A-1-x'' = Inl (InvalidCodeError ''A-1-x'')"
proof -
  have "isNaN (stringToNumber (last (split_hyphen ''A-1-x'')))" by code_simp
  then show ?thesis
    using incrementLastItemCodeSegment_invalid by blast
qed

section \<open>Properties of tree inference\<close>

lemma markStep_length: "length (markStep arr i) = length arr"
  by (simp add: markStep_def)

lemma isChildRow_hasChild_update:
  "isChildRow (x\<lparr>hasChild := b\<rparr>) y = isChildRow x y"
  "isChildRow x (y\<lparr>hasChild := b\<rparr>) = isChildRow x y"
  by (simp_all add: isChildRow_def)

lemma mark_prefix:
  "k \<le> length arr - 1 \<Longrightarrow>
     length (foldl markStep arr [0..<k]) = length arr \<and>
     (\<forall>j<length arr. foldl markStep arr [0..<k] ! j =
        (if j < k \<and> isChildRow (arr ! (j + 1)) (arr ! j)
         then (arr ! j)\<lparr>hasChild := True\<rparr> else arr ! j))"
proof (induction k)
  case 0
  then show ?case by simp
next
  case (Suc k)
  let ?a = "foldl markStep arr [0..<k]"
  from Suc have IH: "length ?a = length arr"
    "\<And>j. j < length arr \<Longrightarrow> ?a ! j =
        (if j < k \<and> isChildRow (arr ! (j + 1)) (arr ! j)
         then (arr ! j)\<lparr>hasChild := True\<rparr> else arr ! j)"
    by simp_all
  from Suc.prems have k: "k < length arr" "k + 1 < length arr" by simp_all
  have ak: "?a ! k = arr ! k" using IH(2) [OF k(1)] by simp
  have ak1: "?a ! (k + 1) = arr ! (k + 1)" using IH(2) [OF k(2)] by simp
  have step: "foldl markStep arr [0..<Suc k] = markStep ?a k" by simp
  show ?case
  proof (intro conjI allI impI)
    show "length (foldl markStep arr [0..<Suc k]) = length arr"
      by (simp add: markStep_length IH(1))
  next
    fix j assume j: "j < length arr"
    show "foldl markStep arr [0..<Suc k] ! j =
        (if j < Suc k \<and> isChildRow (arr ! (j + 1)) (arr ! j)
         then (arr ! j)\<lparr>hasChild := True\<rparr> else arr ! j)"
    proof (cases "j = k")
      case True
      then show ?thesis
        using k ak ak1 IH(1) by (simp only: step) (simp add: markStep_def)
    next
      case False
      then have "markStep ?a k ! j = ?a ! j"
        by (simp add: markStep_def)
      then show ?thesis
        using False j IH(2) [OF j] by (simp only: step) (auto simp: less_Suc_eq)
    qed
  qed
qed

lemma markHasChild_length: "length (markHasChild arr) = length arr"
  using mark_prefix [of "length arr - 1" arr] by (simp add: markHasChild_def)

lemma markHasChild_nth:
  "j < length arr \<Longrightarrow> markHasChild arr ! j =
     (if j + 1 < length arr \<and> isChildRow (arr ! (j + 1)) (arr ! j)
      then (arr ! j)\<lparr>hasChild := True\<rparr> else arr ! j)"
  using mark_prefix [of "length arr - 1" arr]
  by (auto simp: markHasChild_def)

lemma toActivityObjects_nth:
  "i < length rows \<Longrightarrow>
     map (toActivityObject dataTopRow) (enumerate 0 rows) ! i =
       \<lparr>rowNumber = dataTopRow + i, itemCode = colB (rows ! i), quantity = colG (rows ! i),
        unit = colH (rows ! i), rate = colI (rows ! i), cost = colJ (rows ! i),
        hierarchyLevel = hierarchyLevelOf (colB (rows ! i)), hasChild = False\<rparr>"
  by (simp add: toActivityObject_def nth_enumerate_eq)

lemma markedActivities_length: "length (markedActivities dataTopRow rows) = length rows"
  by (simp add: markedActivities_def markHasChild_length)

lemma markedActivities_nth:
  assumes "i < length rows"
  shows "markedActivities dataTopRow rows ! i =
       \<lparr>rowNumber = dataTopRow + i, itemCode = colB (rows ! i), quantity = colG (rows ! i),
        unit = colH (rows ! i), rate = colI (rows ! i), cost = colJ (rows ! i),
        hierarchyLevel = hierarchyLevelOf (colB (rows ! i)),
        hasChild = successorIsChild rows i\<rparr>"
proof -
  define objs where "objs = map (toActivityObject dataTopRow) (enumerate 0 rows)"
  have len: "length objs = length rows" by (simp add: objs_def)
  have obj: "\<And>j. j < length rows \<Longrightarrow> objs ! j =
       \<lparr>rowNumber = dataTopRow + j, itemCode = colB (rows ! j), quantity = colG (rows ! j),
        unit = colH (rows ! j), rate = colI (rows ! j), cost = colJ (rows ! j),
        hierarchyLevel = hierarchyLevelOf (colB (rows ! j)), hasChild = False\<rparr>"
    unfolding objs_def by (rule toActivityObjects_nth)
  have m: "markedActivities dataTopRow rows ! i =
     (if i + 1 < length objs \<and> isChildRow (objs ! (i + 1)) (objs ! i)
      then (objs ! i)\<lparr>hasChild := True\<rparr> else objs ! i)"
    using assms len by (simp only: markedActivities_def objs_def [symmetric] markHasChild_nth)
  show ?thesis
  proof (cases "i + 1 < length rows")
    case True
    then show ?thesis
      using assms obj [of i] obj [of "i + 1"]
      by (simp only: m len) (simp add: isChildRow_def successorIsChild_def)
  next
    case False
    then show ?thesis
      using assms obj [of i] by (simp only: m len) (simp add: successorIsChild_def)
  qed
qed

lemma markHasChild_flag:
  assumes "length objs = length rows"
    and "\<And>j. j < length rows \<Longrightarrow>
           itemCode (objs ! j) = colB (rows ! j) \<and>
           hierarchyLevel (objs ! j) = hierarchyLevelOf (colB (rows ! j)) \<and>
           \<not> hasChild (objs ! j)"
    and "i < length rows"
  shows "hasChild (markHasChild objs ! i) = successorIsChild rows i"
    and "itemCode (markHasChild objs ! i) = colB (rows ! i)"
proof -
  have m: "markHasChild objs ! i =
     (if i + 1 < length objs \<and> isChildRow (objs ! (i + 1)) (objs ! i)
      then (objs ! i)\<lparr>hasChild := True\<rparr> else objs ! i)"
    using assms(1,3) by (simp add: markHasChild_nth)
  show "itemCode (markHasChild objs ! i) = colB (rows ! i)"
    using assms(2) [OF assms(3)] by (simp add: m)
  show "hasChild (markHasChild objs ! i) = successorIsChild rows i"
  proof (cases "i + 1 < length rows")
    case True
    then show ?thesis
      using assms(1) assms(2) [OF assms(3)] assms(2) [OF True]
      by (simp add: m isChildRow_def successorIsChild_def)
  next
    case False
    then show ?thesis
      using assms(1) assms(2) [OF assms(3)] by (simp add: m successorIsChild_def)
  qed
qed

lemma transformTable_cases:
  "transformTableToActivityObjects sh h =
     (if getRangeEdgeDown sh h - 1 < h + 1 then ([], h + 1, getRangeEdgeDown sh h - 1)
      else (map (\<lambda>activity. if hasChild activity then activity\<lparr>rate := Str []\<rparr> else activity)
              (markHasChild (map (toNamedActivityObject (h + 1))
                 (enumerate 0 (getFormulas sh (h + 1) (getRangeEdgeDown sh h - 1))))),
            h + 1, getRangeEdgeDown sh h - 1))"
  by (simp add: transformTableToActivityObjects_def Let_def)

lemma transformTable_bounds:
  "snd (transformTableToActivityObjects sh h) = (h + 1, getRangeEdgeDown sh h - 1)"
  by (simp add: transformTable_cases)

lemma transformTable_flags:
  assumes "i < length (fst (transformTableToActivityObjects sh h))"
  shows "hasChild (fst (transformTableToActivityObjects sh h) ! i) =
           successorIsChild (getFormulas sh (h + 1) (getRangeEdgeDown sh h - 1)) i \<and>
         itemCode (fst (transformTableToActivityObjects sh h) ! i) =
           colB (getFormulas sh (h + 1) (getRangeEdgeDown sh h - 1) ! i) \<and>
         length (fst (transformTableToActivityObjects sh h)) =
           length (getFormulas sh (h + 1) (getRangeEdgeDown sh h - 1))"
proof (cases "getRangeEdgeDown sh h - 1 < h + 1")
  case True
  with assms show ?thesis by (simp add: transformTable_cases)
next
  case False
  define rows where "rows = getFormulas sh (h + 1) (getRangeEdgeDown sh h - 1)"
  define objs where "objs = map (toNamedActivityObject (h + 1)) (enumerate 0 rows)"
  have acts: "fst (transformTableToActivityObjects sh h) =
      map (\<lambda>activity. if hasChild activity then activity\<lparr>rate := Str []\<rparr> else activity)
        (markHasChild objs)"
    using False by (simp add: transformTable_cases rows_def objs_def)
  have len: "length objs = length rows" by (simp add: objs_def)
  have i: "i < length rows"
    using assms by (simp add: acts markHasChild_length len)
  have obj: "\<And>j. j < length rows \<Longrightarrow>
           itemCode (objs ! j) = colB (rows ! j) \<and>
           hierarchyLevel (objs ! j) = hierarchyLevelOf (colB (rows ! j)) \<and>
           \<not> hasChild (objs ! j)"
    by (simp add: objs_def toNamedActivityObject_def nth_enumerate_eq)
  have im: "i < length (markHasChild objs)" using i len by (simp add: markHasChild_length)
  have "hasChild (fst (transformTableToActivityObjects sh h) ! i) = hasChild (markHasChild objs ! i)"
    using im by (simp add: acts)
  moreover have "itemCode (fst (transformTableToActivityObjects sh h) ! i) =
      itemCode (markHasChild objs ! i)"
    using im by (simp add: acts)
  moreover have "length (fst (transformTableToActivityObjects sh h)) = length rows"
    by (simp add: acts markHasChild_length len)
  ultimately show ?thesis
    using markHasChild_flag [OF len obj i]
    by (simp only: rows_def [symmetric])
qed

text \<open>
  Claim C5. In tree inference, both in the formula update and in the table transform,
  row i is marked as having a child exactly when row i + 1 exists, its code starts with
  the code of row i followed by a hyphen, and its depth is the depth of row i plus one. In
  particular the last row is never marked, and the mark of a row is a function of that
  row and its immediate successor alone.
\<close>

theorem tree_inference_successor:
  "(\<forall>i<length rows.
      hasChild (markedActivities dataTopRow rows ! i) \<longleftrightarrow>
        (i + 1 < length rows \<and>
         startsWith (colB (rows ! (i + 1))) (colB (rows ! i) @ [hyphen]) \<and>
         hierarchyLevelOf (colB (rows ! (i + 1))) = hierarchyLevelOf (colB (rows ! i)) + 1)) \<and>
   (rows \<noteq> [] \<longrightarrow> \<not> hasChild (last (markedActivities dataTopRow rows))) \<and>
   (\<forall>i<length (fst (transformTableToActivityObjects sh h)).
      let acts = fst (transformTableToActivityObjects sh h)
      in hasChild (acts ! i) \<longleftrightarrow>
           (i + 1 < length acts \<and>
            startsWith (itemCode (acts ! (i + 1))) (itemCode (acts ! i) @ [hyphen]) \<and>
            hierarchyLevelOf (itemCode (acts ! (i + 1))) =
              hierarchyLevelOf (itemCode (acts ! i)) + 1))"
proof (intro conjI allI impI)
  fix i assume "i < length rows"
  then show "hasChild (markedActivities dataTopRow rows ! i) \<longleftrightarrow>
        (i + 1 < length rows \<and>
         startsWith (colB (rows ! (i + 1))) (colB (rows ! i) @ [hyphen]) \<and>
         hierarchyLevelOf (colB (rows ! (i + 1))) = hierarchyLevelOf (colB (rows ! i)) + 1)"
    by (simp add: markedActivities_nth successorIsChild_def)
next
  assume ne: "rows \<noteq> []"
  then have l: "length rows - 1 < length rows" by simp
  have "last (markedActivities dataTopRow rows) = markedActivities dataTopRow rows ! (length rows - 1)"
  proof -
    have "markedActivities dataTopRow rows \<noteq> []"
      using ne markedActivities_length [of dataTopRow rows] by auto
    then show ?thesis
      using last_conv_nth [of "markedActivities dataTopRow rows"]
      by (simp add: markedActivities_length)
  qed
  moreover have "\<not> length rows - 1 + 1 < length rows" by arith
  then have "\<not> successorIsChild rows (length rows - 1)"
    unfolding successorIsChild_def by blast
  moreover have "hasChild (markedActivities dataTopRow rows ! (length rows - 1)) =
      successorIsChild rows (length rows - 1)"
    using l by (simp only: markedActivities_nth) simp
  ultimately show "\<not> hasChild (last (markedActivities dataTopRow rows))"
    by simp
next
  fix i assume i: "i < length (fst (transformTableToActivityObjects sh h))"
  let ?acts = "fst (transformTableToActivityObjects sh h)"
  let ?rows = "getFormulas sh (h + 1) (getRangeEdgeDown sh h - 1)"
  note f = transformTable_flags
  have len: "length ?acts = length ?rows" using f [OF i] by simp
  have flag: "hasChild (?acts ! i) = successorIsChild ?rows i" using f [OF i] by simp
  have code: "\<And>j. j < length ?acts \<Longrightarrow> itemCode (?acts ! j) = colB (?rows ! j)"
    using f by simp
  show "let acts = ?acts
      in hasChild (acts ! i) \<longleftrightarrow>
           (i + 1 < length acts \<and>
            startsWith (itemCode (acts ! (i + 1))) (itemCode (acts ! i) @ [hyphen]) \<and>
            hierarchyLevelOf (itemCode (acts ! (i + 1))) =
              hierarchyLevelOf (itemCode (acts ! i)) + 1)"
  proof (cases "i + 1 < length ?acts")
    case True
    then show ?thesis
      using code [OF i] code [OF True] len
      by (simp only: Let_def flag successorIsChild_def)
  next
    case False
    then show ?thesis
      using len by (simp only: Let_def flag successorIsChild_def) simp
  qed
qed

theorem tree_inference_successor_witness:
  "hasChild (markedActivities 10 exampleRows ! 1) \<and>
   \<not> hasChild (markedActivities 10 exampleRows ! 2) \<and>
   \<not> hasChild (last (markedActivities 10 exampleRows)) \<and>
   hasChild (fst (transformTableToActivityObjects exampleSheet 9) ! 0)"
proof -
  note t = tree_inference_successor [of exampleRows 10 exampleSheet 9]
  have len: "length exampleRows = 5" by (simp add: exampleRows_def)
  have a: "hasChild (markedActivities 10 exampleRows ! 1)"
    using t [THEN conjunct1, THEN spec, of 1]
    by (simp add: exampleRows_def tableRow_def startsWith_def hierarchyLevelOf_def hyphen_def)
  have b: "\<not> hasChild (markedActivities 10 exampleRows ! 2)"
    using t [THEN conjunct1, THEN spec, of 2]
    by (simp add: exampleRows_def tableRow_def startsWith_def hierarchyLevelOf_def hyphen_def)
  have c: "\<not> hasChild (last (markedActivities 10 exampleRows))"
    using t [THEN conjunct2, THEN conjunct1] by (simp add: exampleRows_def)
  have acts: "map itemCode (fst (transformTableToActivityObjects exampleSheet 9)) =
      [''A'', ''A-1'', ''A-1-1'', ''A-1-3'', ''A-3'']"
    by code_simp
  have lacts: "length (fst (transformTableToActivityObjects exampleSheet 9)) = 5"
    using arg_cong [OF acts, of length] by simp
  have c0: "itemCode (fst (transformTableToActivityObjects exampleSheet 9) ! 0) = ''A''"
    using arg_cong [OF acts, of "\<lambda>l. l ! 0"] lacts by simp
  have c1: "itemCode (fst (transformTableToActivityObjects exampleSheet 9) ! 1) = ''A-1''"
    using arg_cong [OF acts, of "\<lambda>l. l ! 1"] lacts by simp
  have d: "hasChild (fst (transformTableToActivityObjects exampleSheet 9) ! 0)"
    using t [THEN conjunct2, THEN conjunct2, THEN spec, of 0] lacts c0 c1
    by (simp add: Let_def startsWith_def hierarchyLevelOf_def hyphen_def)
  from a b c d show ?thesis by simp
qed

section \<open>Properties of the aggregator\<close>

lemma childSum_fold:
  "foldl (\<lambda>formula item.
            if isChildRow item activity
            then formula @ ''J'' @ string_of_nat (rowNumber item) @ '',''
            else formula) s arr =
   s @ concat (map (\<lambda>item. ''J'' @ string_of_nat (rowNumber item) @ '','')
                 (filter (\<lambda>item. isChildRow item activity) arr))"
  by (induction arr arbitrary: s) simp_all

lemma butlast_commas:
  "xs \<noteq> [] \<Longrightarrow> butlast (s @ concat (map (\<lambda>x. x @ '','') xs)) = s @ commaSeparated xs"
proof (induction xs arbitrary: s rule: commaSeparated.induct)
  case 1
  then show ?case by simp
next
  case (2 x)
  have "butlast (s @ x @ '','') = s @ x"
    by (metis append.assoc butlast_snoc)
  then show ?case by simp
next
  case (3 x y ys)
  have "butlast ((s @ x @ '','') @ concat (map (\<lambda>x. x @ '','') (y # ys))) =
      (s @ x @ '','') @ commaSeparated (y # ys)"
    by (rule 3(1)) simp
  then show ?case by simp
qed

lemma childSumFormula_text:
  assumes "filter (\<lambda>item. isChildRow item activity) arr \<noteq> []"
  shows "childSumFormula arr activity =
     sumOfCostCells (map rowNumber (filter (\<lambda>item. isChildRow item activity) arr))"
proof -
  let ?kids = "filter (\<lambda>item. isChildRow item activity) arr"
  let ?cells = "map (\<lambda>r. ''J'' @ string_of_nat r) (map rowNumber ?kids)"
  have eq: "map (\<lambda>item. ''J'' @ string_of_nat (rowNumber item) @ '','') ?kids =
      map (\<lambda>x. x @ '','') ?cells"
    by simp
  have ne: "?cells \<noteq> []" using assms by simp
  have "butlast (''=SUM('' @ concat (map (\<lambda>x. x @ '','') ?cells)) =
      ''=SUM('' @ commaSeparated ?cells"
    using ne by (rule butlast_commas)
  then show ?thesis
    by (simp only: childSumFormula_def sumOfCostCells_def childSum_fold eq append_assoc)
qed

lemma childSumFormula_keys:
  "keys a = keys b \<Longrightarrow> childSumFormula a activity = childSumFormula b activity"
proof -
  assume k: "keys a = keys b"
  have fold_keys: "\<And>arr s. foldl (\<lambda>formula item.
            if isChildRow item activity
            then formula @ ''J'' @ string_of_nat (rowNumber item) @ '',''
            else formula) s arr =
     foldl (\<lambda>formula (c, l, r).
            if startsWith c (itemCode activity @ [hyphen]) \<and> l = hierarchyLevel activity + 1
            then formula @ ''J'' @ string_of_nat r @ '',''
            else formula) s (keys arr)"
    by (simp add: keys_def foldl_map isChildRow_def)
  show ?thesis
    by (simp only: childSumFormula_def fold_keys k)
qed

lemma updateActivity_keys:
  "keys a = keys b \<Longrightarrow> updateActivity a activity = updateActivity b activity"
  by (simp add: updateActivity_def childSumFormula_keys [of a b])

lemma keys_update:
  "i < length a \<Longrightarrow> keys (a[i := updateActivity arr (a ! i)]) = keys a"
  by (simp add: keys_def updateActivity_def map_update list_update_same_conv)

lemma update_prefix:
  "k \<le> length arr \<Longrightarrow>
     length (foldl (\<lambda>a i. a[i := updateActivity a (a ! i)]) arr [0..<k]) = length arr \<and>
     keys (foldl (\<lambda>a i. a[i := updateActivity a (a ! i)]) arr [0..<k]) = keys arr \<and>
     (\<forall>j<length arr. foldl (\<lambda>a i. a[i := updateActivity a (a ! i)]) arr [0..<k] ! j =
        (if j < k then updateActivity arr (arr ! j) else arr ! j))"
proof (induction k)
  case 0
  then show ?case by simp
next
  case (Suc k)
  let ?a = "foldl (\<lambda>a i. a[i := updateActivity a (a ! i)]) arr [0..<k]"
  from Suc have IH: "length ?a = length arr" "keys ?a = keys arr"
    "\<And>j. j < length arr \<Longrightarrow> ?a ! j = (if j < k then updateActivity arr (arr ! j) else arr ! j)"
    by simp_all
  from Suc.prems have k: "k < length arr" by simp
  have step: "foldl (\<lambda>a i. a[i := updateActivity a (a ! i)]) arr [0..<Suc k] =
      ?a[k := updateActivity arr (arr ! k)]"
    using IH(3) [OF k] updateActivity_keys [OF IH(2)] by simp
  show ?case
  proof (intro conjI allI impI)
    show "length (foldl (\<lambda>a i. a[i := updateActivity a (a ! i)]) arr [0..<Suc k]) = length arr"
      by (simp only: step) (simp add: IH(1))
    show "keys (foldl (\<lambda>a i. a[i := updateActivity a (a ! i)]) arr [0..<Suc k]) = keys arr"
      using keys_update [of k ?a arr] IH(3) [OF k] k IH(1,2) by (simp only: step) simp
  next
    fix j assume j: "j < length arr"
    show "foldl (\<lambda>a i. a[i := updateActivity a (a ! i)]) arr [0..<Suc k] ! j =
        (if j < Suc k then updateActivity arr (arr ! j) else arr ! j)"
      using IH(3) [OF j] j k IH(1)
      by (simp only: step) (auto simp: nth_list_update less_Suc_eq)
  qed
qed

lemma updateActivities_nth:
  "i < length arr \<Longrightarrow> updateActivities arr ! i = updateActivity arr (arr ! i)"
  using update_prefix [of "length arr" arr] by (simp add: updateActivities_def)

lemma updateActivities_length: "length (updateActivities arr) = length arr"
  using update_prefix [of "length arr" arr] by (simp add: updateActivities_def)

lemma computeActivities_nth:
  "i < length rows \<Longrightarrow>
     computeActivities dataTopRow rows ! i =
       updateActivity (markedActivities dataTopRow rows) (markedActivities dataTopRow rows ! i)"
  by (simp add: computeActivities_def updateActivities_nth markedActivities_length)

text \<open>
  Claim C7. For every row marked as having a child the aggregator takes one of two
  policies. When the unit of the row is not LS and its quantity is neither the number 1
  nor the placeholder [qty], it keeps quantity and unit, the rate becomes the sum formula
  over the cost cells of the immediate children and the cost the product formula of the
  row. Otherwise quantity is 1, unit is LS, the rate is blank and the cost is the sum
  formula over the cost cells of the immediate children; a row with quantity 1 and unit
  LS is always in this second case.
\<close>

theorem aggregator_parent_policy:
  assumes "i < length rows" and "hasChild (markedActivities dataTopRow rows ! i)"
  shows "let acts = markedActivities dataTopRow rows;
             a = acts ! i;
             a' = computeActivities dataTopRow rows ! i;
             children = filter (\<lambda>item. isChildRow item a) acts
         in unit a = colH (rows ! i) \<and> quantity a = colG (rows ! i) \<and> children \<noteq> [] \<and>
            (if unit a \<noteq> ''LS'' \<and> quantity a \<noteq> Num 1 \<and> quantity a \<noteq> Str ''[qty]''
             then quantity a' = quantity a \<and> unit a' = unit a \<and>
                  rate a' = Str (sumOfCostCells (map rowNumber children)) \<and>
                  cost a' = costProductFormula (rowNumber a)
             else quantity a' = Num 1 \<and> unit a' = ''LS'' \<and> rate a' = Str [] \<and>
                  cost a' = sumOfCostCells (map rowNumber children)) \<and>
            (quantity a = Num 1 \<and> unit a = ''LS'' \<longrightarrow>
               quantity a' = Num 1 \<and> unit a' = ''LS'' \<and> rate a' = Str [] \<and>
               cost a' = sumOfCostCells (map rowNumber children))"
proof -
  define acts where "acts = markedActivities dataTopRow rows"
  define a where "a = acts ! i"
  define children where "children = filter (\<lambda>item. isChildRow item a) acts"
  have len: "length acts = length rows" by (simp add: acts_def markedActivities_length)
  have a_eq: "a = \<lparr>rowNumber = dataTopRow + i, itemCode = colB (rows ! i), quantity = colG (rows ! i),
        unit = colH (rows ! i), rate = colI (rows ! i), cost = colJ (rows ! i),
        hierarchyLevel = hierarchyLevelOf (colB (rows ! i)),
        hasChild = successorIsChild rows i\<rparr>"
    using assms(1) by (simp add: a_def acts_def markedActivities_nth)
  have marked: "hasChild a" using assms(2) by (simp add: a_def acts_def)
  then have succ: "successorIsChild rows i" by (simp add: a_eq)
  then have i1: "i + 1 < length rows" by (simp add: successorIsChild_def)
  have "isChildRow (acts ! (i + 1)) a"
    using succ i1 by (simp add: a_eq acts_def markedActivities_nth isChildRow_def successorIsChild_def)
  moreover have "acts ! (i + 1) \<in> set acts" using i1 len by simp
  ultimately have ne: "children \<noteq> []"
    by (auto simp: children_def filter_empty_conv)
  have sum: "childSumFormula acts a = sumOfCostCells (map rowNumber children)"
    unfolding children_def by (rule childSumFormula_text) (use ne in \<open>simp add: children_def\<close>)
  have a': "computeActivities dataTopRow rows ! i = updateActivity acts a"
    using assms(1) by (simp add: computeActivities_nth acts_def a_def)
  have fields: "unit a = colH (rows ! i)" "quantity a = colG (rows ! i)"
    by (simp_all add: a_eq)
  have "children \<noteq> [] \<and>
      (if unit a \<noteq> ''LS'' \<and> quantity a \<noteq> Num 1 \<and> quantity a \<noteq> Str ''[qty]''
       then quantity (updateActivity acts a) = quantity a \<and> unit (updateActivity acts a) = unit a \<and>
            rate (updateActivity acts a) = Str (sumOfCostCells (map rowNumber children)) \<and>
            cost (updateActivity acts a) = costProductFormula (rowNumber a)
       else quantity (updateActivity acts a) = Num 1 \<and> unit (updateActivity acts a) = ''LS'' \<and>
            rate (updateActivity acts a) = Str [] \<and>
            cost (updateActivity acts a) = sumOfCostCells (map rowNumber children)) \<and>
      (quantity a = Num 1 \<and> unit a = ''LS'' \<longrightarrow>
         quantity (updateActivity acts a) = Num 1 \<and> unit (updateActivity acts a) = ''LS'' \<and>
         rate (updateActivity acts a) = Str [] \<and>
         cost (updateActivity acts a) = sumOfCostCells (map rowNumber children))"
    using marked ne sum by (simp add: updateActivity_def)
  with fields show ?thesis
    by (simp only: Let_def acts_def [symmetric] a_def [symmetric] children_def [symmetric] a')
      simp
qed

theorem aggregator_parent_policy_witness:
  "hasChild (markedActivities 10 exampleRows ! 0) \<and>
   quantity (computeActivities 10 exampleRows ! 0) = Num 1 \<and>
   unit (computeActivities 10 exampleRows ! 0) = ''LS'' \<and>
   rate (computeActivities 10 exampleRows ! 0) = Str [] \<and>
   cost (computeActivities 10 exampleRows ! 0) = ''=SUM(J11,J14)''"
proof -
  have h: "hasChild (markedActivities 10 exampleRows ! 0)" by code_simp
  have i: "0 < length exampleRows" by (simp add: exampleRows_def)
  have u: "colH (exampleRows ! 0) = ''LS''" by (simp add: exampleRows_def tableRow_def)
  have s: "sumOfCostCells (map rowNumber
      (filter (\<lambda>item. isChildRow item (markedActivities 10 exampleRows ! 0))
         (markedActivities 10 exampleRows))) = ''=SUM(J11,J14)''"
    by code_simp
  from aggregator_parent_policy [OF i h] u h show ?thesis
    by (simp only: Let_def s) simp
qed

text \<open>
  Claim C8. For every row not marked as having a child, a blank quantity becomes [qty],
  a blank unit [unit], a blank rate or the error reference #REF! becomes [rate], every
  other value is kept, and the cost becomes the formula of the product of the quantity
  and rate cells of the row itself, with its dash and pending-values fallbacks.
\<close>

theorem aggregator_leaf:
  assumes "i < length rows" and "\<not> hasChild (markedActivities dataTopRow rows ! i)"
  shows \<open>let r = rows ! i;
             a' = computeActivities dataTopRow rows ! i;
             n = string_of_nat (dataTopRow + i)
         in quantity a' = (if colG r = Str [] then Str ''[qty]'' else colG r) \<and>
            unit a' = (if colH r = [] then ''[unit]'' else colH r) \<and>
            rate a' = (if colI r = Str [] \<or> colI r = Str ''#REF!'' then Str ''[rate]'' else colI r) \<and>
            cost a' = ''=IFERROR(IF(G'' @ n @ ''="-", "-", G'' @ n @ ''*I'' @ n @
                        ''), "[pending values]")''\<close>
proof -
  define acts where "acts = markedActivities dataTopRow rows"
  define a where "a = acts ! i"
  have a_eq: "a = \<lparr>rowNumber = dataTopRow + i, itemCode = colB (rows ! i), quantity = colG (rows ! i),
        unit = colH (rows ! i), rate = colI (rows ! i), cost = colJ (rows ! i),
        hierarchyLevel = hierarchyLevelOf (colB (rows ! i)),
        hasChild = successorIsChild rows i\<rparr>"
    using assms(1) by (simp add: a_def acts_def markedActivities_nth)
  have leaf: "\<not> hasChild a" using assms(2) by (simp add: a_def acts_def)
  have a': "computeActivities dataTopRow rows ! i = updateActivity acts a"
    using assms(1) by (simp add: computeActivities_nth acts_def a_def)
  show ?thesis
    using leaf by (simp add: Let_def a' updateActivity_def a_eq costProductFormula_def)
qed

theorem aggregator_leaf_witness:
  \<open>\<not> hasChild (markedActivities 10 exampleRows ! 2) \<and>
   quantity (computeActivities 10 exampleRows ! 2) = Str ''[qty]'' \<and>
   unit (computeActivities 10 exampleRows ! 2) = ''[unit]'' \<and>
   rate (computeActivities 10 exampleRows ! 2) = Str ''[rate]'' \<and>
   cost (computeActivities 10 exampleRows ! 2) =
     ''=IFERROR(IF(G12="-", "-", G12*I12), "[pending values]")''\<close>
proof -
  have h: "\<not> hasChild (markedActivities 10 exampleRows ! 2)" by code_simp
  have i: "2 < length exampleRows" by (simp add: exampleRows_def)
  have r: "exampleRows ! 2 = tableRow ''A-1-1'' (Str []) [] (Str ''#REF!'')"
    by (simp add: exampleRows_def)
  have n: "string_of_nat (10 + 2) = ''12''" by code_simp
  from aggregator_leaf [OF i h] h show ?thesis
    by (simp only: Let_def r n) (simp add: tableRow_def)
qed

section \<open>Properties of the delete script\<close>

text \<open>
  Claim C9. When the first selected row is above the first data row or the last selected
  row is below the last data row, the delete script throws its range error and the
  worksheet is the worksheet it started from: nothing is deleted and nothing is written.
\<close>

theorem delete_outside_bounds:
  assumes "transformTableToActivityObjects (activeWorksheet wb) 9 = (acts, dataTopRow, dataBottomRow)"
    and "selectedRowIndex wb + 1 < dataTopRow \<or>
         selectedRowIndex wb + 1 + selectedRowCount wb - 1 > dataBottomRow"
  shows "deleteSelectedActivitiesAndRefresh wb = (Some RangeError, activeWorksheet wb)"
  using assms by (simp add: deleteSelectedActivitiesAndRefresh_def Let_def)

theorem delete_outside_bounds_witness:
  "deleteSelectedActivitiesAndRefresh
     \<lparr>activeWorksheet = exampleSheet, selectedRowIndex = 14, selectedRowCount = 1\<rparr> =
   (Some RangeError, exampleSheet)"
proof -
  let ?wb = "\<lparr>activeWorksheet = exampleSheet, selectedRowIndex = 14, selectedRowCount = 1\<rparr>"
  have e: "getRangeEdgeDown exampleSheet 9 = 15" by code_simp
  have b: "transformTableToActivityObjects (activeWorksheet ?wb) 9 =
      (fst (transformTableToActivityObjects exampleSheet 9), 10, 14)"
    using transformTable_bounds [of exampleSheet 9] e
    by (simp add: prod_eq_iff)
  show ?thesis
    using delete_outside_bounds [OF b] by simp
qed

text \<open>
  Inside the bounds the script does delete, renumber and recompute: without row 12 of
  the example table, the codes A-1-3 and A-3 become A-1-1 and A-2.
\<close>

lemma delete_inside_bounds_example:
  "fst (deleteSelectedActivitiesAndRefresh
     \<lparr>activeWorksheet = exampleSheet, selectedRowIndex = 11, selectedRowCount = 1\<rparr>) = None \<and>
   map colB (snd (deleteSelectedActivitiesAndRefresh
     \<lparr>activeWorksheet = exampleSheet, selectedRowIndex = 11, selectedRowCount = 1\<rparr>)) =
   replicate 8 [] @ [''Item'', ''A'', ''A-1'', ''A-1-1'', ''A-2'', ''Total'']"
  by code_simp

section \<open>Properties of the insertion planner\<close>

lemma preorder_suffix: "preorder (xs @ ys) \<Longrightarrow> preorder ys"
  by (induction xs) simp_all

lemma startsWith_level:
  assumes "startsWith c (p @ [hyphen])"
  shows "hierarchyLevelOf p < hierarchyLevelOf c"
proof -
  from assms obtain r where "c = (p @ [hyphen]) @ r"
    by (auto simp: startsWith_def prefix_def)
  then show ?thesis by (simp add: hierarchyLevelOf_def)
qed

lemma filter_eq_takeWhile:
  "list_all (\<lambda>x. \<not> P x) (dropWhile P xs) \<Longrightarrow> filter P xs = takeWhile P xs"
proof (induction xs)
  case Nil
  then show ?case by simp
next
  case (Cons x xs)
  show ?case
  proof (cases "P x")
    case True
    with Cons show ?thesis by simp
  next
    case False
    with Cons.prems have "list_all (\<lambda>x. \<not> P x) xs" by simp
    then have "filter P xs = []" by (simp add: list_all_iff filter_empty_conv)
    with False show ?thesis by simp
  qed
qed

lemma list_all_map_not:
  "list_all (\<lambda>x. \<not> P x) (map f ys) \<Longrightarrow> list_all (\<lambda>x. \<not> P (f x)) ys"
  by (simp add: list_all_iff)

lemma takeWhile_map_itemCode:
  "map itemCode (takeWhile (\<lambda>item. P (itemCode item)) xs) = takeWhile P (map itemCode xs)"
  by (simp add: takeWhile_map comp_def)

lemma dropWhile_map_itemCode:
  "map itemCode (dropWhile (\<lambda>item. P (itemCode item)) xs) = dropWhile P (map itemCode xs)"
  by (simp add: dropWhile_map comp_def)

lemma below_rowNumber:
  "k < length (getAllItemCodesFromGivenRow sh s) \<Longrightarrow>
     rowNumber (getAllItemCodesFromGivenRow sh s ! k) = s + k"
  by (simp add: getAllItemCodesFromGivenRow_def del: upt_Suc)

lemma last_takeWhile_rowNumber:
  assumes "takeWhile P (getAllItemCodesFromGivenRow sh s) \<noteq> []"
  shows "rowNumber (last (takeWhile P (getAllItemCodesFromGivenRow sh s))) + 1 =
           s + length (takeWhile P (getAllItemCodesFromGivenRow sh s))"
proof -
  let ?below = "getAllItemCodesFromGivenRow sh s"
  let ?d = "takeWhile P ?below"
  have le: "length ?d \<le> length ?below" by (rule length_takeWhile_le)
  have pos: "0 < length ?d" using assms by simp
  have "last ?d = ?d ! (length ?d - 1)" using assms by (rule last_conv_nth)
  also have "\<dots> = ?below ! (length ?d - 1)"
    using pos by (intro takeWhile_nth) simp
  finally have "last ?d = ?below ! (length ?d - 1)" .
  moreover have "length ?d - 1 < length ?below" using le pos by arith
  ultimately have "rowNumber (last ?d) = s + (length ?d - 1)"
    by (simp only: below_rowNumber)
  then show ?thesis using pos by simp
qed

text \<open>
  The planner on a table whose rows are in pre-order from the parent row on. The rows
  that \<^verbatim>\<open>getAllChildActivityItemCodes\<close> returns are then the unbroken run of
  descendants after the parent. Without descendants the planner returns the parent code
  followed by -1 and the row after the parent; with descendants of which none is one level
  below the parent it throws a type error; with immediate children it increments the final
  segment of the code of the last one (and fails as that increment fails), and the
  insertion row is the row after the last descendant at any depth.
\<close>

lemma planner_on_preorder:
  assumes "0 < p"
    and "preorder (cellB sh p # map itemCode (getAllItemCodesFromGivenRow sh (p + 1)))"
  shows "computeNewChildItemCodeAndInsertionRow sh p =
     (let parentCode = cellB sh p;
          below = getAllItemCodesFromGivenRow sh (p + 1);
          descendants =
            takeWhile (\<lambda>item. startsWith (itemCode item) (parentCode @ [hyphen])) below;
          children =
            filter (\<lambda>item. hierarchyLevelOf (itemCode item) = hierarchyLevelOf parentCode + 1)
              descendants
      in if descendants = []
         then Inr \<lparr>newChildInsertionRow = p + 1,
                   newChildItemCode = parentCode @ ''-1'',
                   newChildHierarchyLevel = hierarchyLevelOf parentCode + 1\<rparr>
         else if children = [] then Inl TypeError
         else case incrementLastItemCodeSegment (itemCode (last children)) of
                Inl e \<Rightarrow> Inl e
              | Inr code \<Rightarrow>
                  Inr \<lparr>newChildInsertionRow = p + length descendants + 1,
                       newChildItemCode = code,
                       newChildHierarchyLevel = hierarchyLevelOf parentCode + 1\<rparr>)"
proof -
  define pc where "pc = cellB sh p"
  define below where "below = getAllItemCodesFromGivenRow sh (p + 1)"
  define S where "S = (\<lambda>item :: itemRow. startsWith (itemCode item) (pc @ [hyphen]))"
  define descendants where "descendants = takeWhile S below"
  define children where
    "children = filter (\<lambda>item. hierarchyLevelOf (itemCode item) = hierarchyLevelOf pc + 1) descendants"
  from assms(2) have rest: "list_all (\<lambda>x. \<not> startsWith x (pc @ [hyphen]))
      (dropWhile (\<lambda>x. startsWith x (pc @ [hyphen])) (map itemCode below))"
    by (simp add: pc_def below_def Let_def)
  have "map itemCode (dropWhile S below) =
      dropWhile (\<lambda>x. startsWith x (pc @ [hyphen])) (map itemCode below)"
    unfolding S_def by (rule dropWhile_map_itemCode)
  with rest have "list_all (\<lambda>x. \<not> startsWith x (pc @ [hyphen])) (map itemCode (dropWhile S below))"
    by (simp only:)
  then have "list_all (\<lambda>item. \<not> startsWith (itemCode item) (pc @ [hyphen])) (dropWhile S below)"
    by (rule list_all_map_not)
  then have "list_all (\<lambda>x. \<not> S x) (dropWhile S below)"
    unfolding S_def .
  then have filt: "filter S below = descendants"
    unfolding descendants_def by (rule filter_eq_takeWhile)
  have childItems: "getAllChildActivityItemCodes sh p = descendants"
  proof -
    have "getAllChildActivityItemCodes sh p =
        filter (\<lambda>item. S item \<and> hierarchyLevelOf pc < hierarchyLevelOf (itemCode item)) below"
      by (simp add: getAllChildActivityItemCodes_def Let_def pc_def below_def S_def)
    also have "\<dots> = filter S below"
      by (rule filter_cong) (auto simp: S_def dest: startsWith_level)
    finally show ?thesis using filt by simp
  qed
  have deep: "\<And>item. item \<in> set descendants \<Longrightarrow> hierarchyLevelOf (itemCode item) \<noteq> 0"
  proof -
    fix item assume "item \<in> set descendants"
    then have "S item" unfolding descendants_def by (rule set_takeWhileD [THEN conjunct2])
    then show "hierarchyLevelOf (itemCode item) \<noteq> 0"
      using startsWith_level [of "itemCode item" pc] by (simp add: S_def)
  qed
  have nz: "\<not> list_ex (\<lambda>item. hierarchyLevelOf (itemCode item) = 0) descendants"
    using deep by (auto simp: list_ex_iff)
  have row: "descendants \<noteq> [] \<Longrightarrow> rowNumber (last descendants) + 1 = p + length descendants + 1"
    using last_takeWhile_rowNumber [of S sh "p + 1"]
    by (simp add: descendants_def below_def)
  have body: "computeNewChildItemCodeAndInsertionRow sh p =
     (if length descendants = 0
      then Inr \<lparr>newChildInsertionRow = p + 1,
                newChildItemCode = pc @ ''-1'',
                newChildHierarchyLevel = hierarchyLevelOf pc + 1\<rparr>
      else if list_ex (\<lambda>item. hierarchyLevelOf (itemCode item) = 0) descendants
      then Inl TypeError
      else if children = [] then Inl TypeError
      else case incrementLastItemCodeSegment (itemCode (last children)) of
             Inl e \<Rightarrow> Inl e
           | Inr code \<Rightarrow>
               Inr \<lparr>newChildInsertionRow = rowNumber (last descendants) + 1,
                    newChildItemCode = code,
                    newChildHierarchyLevel = hierarchyLevelOf pc + 1\<rparr>)"
    unfolding computeNewChildItemCodeAndInsertionRow_def Let_def childItems children_def pc_def
    by (rule refl)
  have "computeNewChildItemCodeAndInsertionRow sh p =
     (if descendants = []
      then Inr \<lparr>newChildInsertionRow = p + 1,
                newChildItemCode = pc @ ''-1'',
                newChildHierarchyLevel = hierarchyLevelOf pc + 1\<rparr>
      else if children = [] then Inl TypeError
      else case incrementLastItemCodeSegment (itemCode (last children)) of
             Inl e \<Rightarrow> Inl e
           | Inr code \<Rightarrow>
               Inr \<lparr>newChildInsertionRow = p + length descendants + 1,
                    newChildItemCode = code,
                    newChildHierarchyLevel = hierarchyLevelOf pc + 1\<rparr>)"
  proof (cases "descendants = []")
    case True
    then show ?thesis by (simp add: body)
  next
    case False
    have r: "rowNumber (last descendants) + 1 = p + length descendants + 1"
      using False by (rule row)
    show ?thesis
      using False nz by (simp only: body r) simp
  qed
  then show ?thesis
    unfolding Let_def children_def descendants_def S_def below_def pc_def .
qed

text \<open>
  On the table with descendants at several depths: under A-1-1 with the children A-1-1-1
  to A-1-1-3 the new code is A-1-1-4 in row 16; under A-1, whose last child A-1-2 has a
  child of its own, the new code is A-1-3 in row 18, after that grandchild; under the
  leaf A-1-1-1 the new code is A-1-1-1-1 in row 14.
\<close>

lemma planner_examples:
  "preorder (map colB (drop 9 plannerSheet)) \<and>
   computeNewChildItemCodeAndInsertionRow plannerSheet 12 =
     Inr \<lparr>newChildInsertionRow = 16, newChildItemCode = ''A-1-1-4'', newChildHierarchyLevel = 3\<rparr> \<and>
   computeNewChildItemCodeAndInsertionRow plannerSheet 11 =
     Inr \<lparr>newChildInsertionRow = 18, newChildItemCode = ''A-1-3'', newChildHierarchyLevel = 2\<rparr> \<and>
   computeNewChildItemCodeAndInsertionRow plannerSheet 13 =
     Inr \<lparr>newChildInsertionRow = 14, newChildItemCode = ''A-1-1-1-1'', newChildHierarchyLevel = 4\<rparr>"
proof -
  have p0: "preorder (map colB (drop 9 plannerSheet))" by code_simp
  have p12: "preorder (cellB plannerSheet 12 # map itemCode (getAllItemCodesFromGivenRow plannerSheet (12 + 1)))"
    by code_simp
  have p11: "preorder (cellB plannerSheet 11 # map itemCode (getAllItemCodesFromGivenRow plannerSheet (11 + 1)))"
    by code_simp
  have p13: "preorder (cellB plannerSheet 13 # map itemCode (getAllItemCodesFromGivenRow plannerSheet (13 + 1)))"
    by code_simp
  have r12: "computeNewChildItemCodeAndInsertionRow plannerSheet 12 =
     Inr \<lparr>newChildInsertionRow = 16, newChildItemCode = ''A-1-1-4'', newChildHierarchyLevel = 3\<rparr>"
    by (subst planner_on_preorder [OF _ p12]) (simp, code_simp)
  have r11: "computeNewChildItemCodeAndInsertionRow plannerSheet 11 =
     Inr \<lparr>newChildInsertionRow = 18, newChildItemCode = ''A-1-3'', newChildHierarchyLevel = 2\<rparr>"
    by (subst planner_on_preorder [OF _ p11]) (simp, code_simp)
  have r13: "computeNewChildItemCodeAndInsertionRow plannerSheet 13 =
     Inr \<lparr>newChildInsertionRow = 14, newChildItemCode = ''A-1-1-1-1'', newChildHierarchyLevel = 4\<rparr>"
    by (subst planner_on_preorder [OF _ p13]) (simp, code_simp)
  from p0 r12 r11 r13 show ?thesis by simp
qed

text \<open>
  Claim C1 says that on a table in pre-order the planner, called on a parent without
  immediate children, returns the parent code followed by -1 and the row after the
  parent. The planner tests for descendants of any depth instead. The delete script,
  run on the codes A, A-1, A-1-1 with the row of A-1 selected, leaves the codes A and
  A--1: a table in pre-order in which A has a descendant and no immediate child. Called
  on the row of A, the planner finds no child one level below, reads the code of an
  undefined last child and throws a type error, where the claim has it return A-1 for
  row 11.
\<close>

theorem planner_descendant_without_child:
  "fst (deleteSelectedActivitiesAndRefresh orphanWorkbook) = None \<and>
   map colB (snd (deleteSelectedActivitiesAndRefresh orphanWorkbook)) = map colB orphanSheet \<and>
   preorder (map colB (drop 9 orphanSheet)) \<and>
   cellB orphanSheet 10 = ''A'' \<and>
   filter (\<lambda>item. startsWith (itemCode item) (''A'' @ [hyphen]) \<and>
                     hierarchyLevelOf (itemCode item) = hierarchyLevelOf ''A'' + 1)
     (getAllItemCodesFromGivenRow orphanSheet 11) = [] \<and>
   computeNewChildItemCodeAndInsertionRow orphanSheet 10 = Inl TypeError \<and>
   computeNewChildItemCodeAndInsertionRow
     (snd (deleteSelectedActivitiesAndRefresh orphanWorkbook)) 10 = Inl TypeError"
  by code_simp

end
